theory Spec2Isabelle
  imports Main "HOL-Library.Word"
begin

unbundle bit_operations_syntax

section \<open>Data model\<close>

text \<open>
  A \<^verbatim>\<open>Uint8Array\<close> is a list of bytes. A JavaScript \<^verbatim>\<open>number\<close> that holds an
  integer is an \<^typ>\<open>int\<close>; storing a number into a \<^verbatim>\<open>Uint8Array\<close> keeps its low eight
  bits (\<open>word_of_int\<close>), reading an element gives a number between 0 and 255 (\<open>uint\<close>).
\<close>

type_synonym byte = "8 word"
type_synonym Uint8Array = "byte list"

text \<open>\<^verbatim>\<open>enum ErrorCode\<close> of \<^verbatim>\<open>types/index.ts\<close>.\<close>

datatype ErrorCode =
    CONNECTION_FAILED | CONNECTION_LOST | PORT_NOT_FOUND | PERMISSION_DENIED
  | TIMEOUT | CHECKSUM_ERROR | INVALID_RESPONSE | DEVICE_NOT_FOUND
  | WRITE_ERROR | READ_ERROR | INVALID_PARAMETER | HARDWARE_ERROR

text \<open>
  What the code throws. \<open>ServoError c ds i\<close> is \<^verbatim>\<open>new ServoError(message, c, i)\<close>: the
  code, and the device id when the constructor call gives one. The message text is kept
  only as far as a claim is about it: \<open>ds\<close> is the array \<^verbatim>\<open>errors\<close> that \<^verbatim>\<open>checkError\<close> joins
  into its message, and is empty for every other throw. \<open>PlainError\<close> is a
  \<^verbatim>\<open>new Error(...)\<close>, which is not a \<^verbatim>\<open>ServoError\<close>.
\<close>

datatype ServoError =
    ServoError (code: ErrorCode) (conditions: "string list") (deviceId: "int option")
  | PlainError

text \<open>\<^verbatim>\<open>interface ResponsePacket extends Packet\<close>: every field but the parameters is a number.\<close>

record ResponsePacket =
  pkt_id :: int
  pkt_instruction :: int
  pkt_parameters :: Uint8Array
  pkt_length :: int
  pkt_error :: int
  pkt_checksum :: int

text \<open>\<^verbatim>\<open>enum Instruction\<close> and \<^verbatim>\<open>enum ErrorBit\<close> as the numbers they are.\<close>

definition PING :: int where "PING = 0x01"
definition READ :: int where "READ = 0x02"
definition WRITE :: int where "WRITE = 0x03"
definition REG_WRITE :: int where "REG_WRITE = 0x04"
definition ACTION :: int where "ACTION = 0x05"
definition FACTORY_RESET :: int where "FACTORY_RESET = 0x06"
definition REBOOT :: int where "REBOOT = 0x08"
definition SYNC_WRITE :: int where "SYNC_WRITE = 0x83"
definition SYNC_READ :: int where "SYNC_READ = 0x82"

definition VOLTAGE :: int where "VOLTAGE = 0x01"
definition ANGLE :: int where "ANGLE = 0x02"
definition OVERHEAT :: int where "OVERHEAT = 0x04"
definition RANGE :: int where "RANGE = 0x08"
definition CHECKSUM :: int where "CHECKSUM = 0x10"
definition OVERLOAD :: int where "OVERLOAD = 0x20"
definition INSTRUCTION :: int where "INSTRUCTION = 0x40"

text \<open>\<^verbatim>\<open>core/constants.ts\<close>.\<close>

definition BROADCAST_ID :: int where "BROADCAST_ID = 0xFE"
definition HEADER :: "byte list" where "HEADER = [0xFF, 0xFF]"
definition HEADER_LENGTH :: int where "HEADER_LENGTH = 2"
definition ID_LENGTH :: int where "ID_LENGTH = 1"
definition LENGTH_LENGTH :: int where "LENGTH_LENGTH = 1"
definition INSTRUCTION_LENGTH :: int where "INSTRUCTION_LENGTH = 1"
definition CHECKSUM_LENGTH :: int where "CHECKSUM_LENGTH = 1"
definition MIN_PACKET_LENGTH :: int where
  "MIN_PACKET_LENGTH =
     HEADER_LENGTH + ID_LENGTH + LENGTH_LENGTH + INSTRUCTION_LENGTH + CHECKSUM_LENGTH"
definition TORQUE_ENABLE :: int where "TORQUE_ENABLE = 1"
definition TORQUE_DISABLE :: int where "TORQUE_DISABLE = 0"

definition makeWord :: "int \<Rightarrow> int \<Rightarrow> int" where
  "makeWord lowByte highByte = (push_bit 8 highByte) OR lowByte"

definition getLowByte :: "int \<Rightarrow> int" where
  "getLowByte w = w AND 0xFF"

definition getHighByte :: "int \<Rightarrow> int" where
  "getHighByte w = (drop_bit 8 w) AND 0xFF"

section \<open>Typed arrays\<close>

text \<open>
  \<^verbatim>\<open>new Uint8Array(n)\<close> is \<open>n\<close> zero bytes. \<^verbatim>\<open>a.slice(b, e)\<close> follows JavaScript: a negative
  index counts from the end, both are clamped to the array. \<^verbatim>\<open>a.set(src, offset)\<close>
  overwrites the elements from \<open>offset\<close> on; it throws a \<^verbatim>\<open>RangeError\<close> when \<open>src\<close> does
  not fit, which is \<open>None\<close> here. \<^verbatim>\<open>a[i] = v\<close> outside the array is ignored, as
  \<open>list_update\<close> does.
\<close>

definition newUint8Array :: "int \<Rightarrow> Uint8Array" where
  "newUint8Array n = replicate (nat n) 0"

definition clampIndex :: "int \<Rightarrow> int \<Rightarrow> nat" where
  "clampIndex n i = (if i < 0 then nat (max (n + i) 0) else nat (min i n))"

definition sliceArr :: "'a list \<Rightarrow> int \<Rightarrow> int \<Rightarrow> 'a list" where
  "sliceArr xs b e =
     (let n = int (length xs); from = clampIndex n b; to = clampIndex n e
      in take (to - from) (drop from xs))"

definition setAt :: "Uint8Array \<Rightarrow> Uint8Array \<Rightarrow> int \<Rightarrow> Uint8Array option" where
  "setAt dst src offset =
     (if offset < 0 \<or> int (length dst) < offset + int (length src) then None
      else Some (take (nat offset) dst @ src @ drop (nat offset + length src) dst))"

definition store :: "Uint8Array \<Rightarrow> int \<Rightarrow> int \<Rightarrow> Uint8Array" where
  "store a i v = (if i < 0 then a else a[nat i := word_of_int v])"

section \<open>PacketHandler\<close>

text \<open>
  \<^verbatim>\<open>calculateChecksum\<close>: the loop adds the bytes as numbers, then \<^verbatim>\<open>(~sum) & 0xFF\<close>.
\<close>

definition calculateChecksum :: "Uint8Array \<Rightarrow> int" where
  "calculateChecksum data = (NOT (fold (\<lambda>byte sum. sum + uint byte) data 0)) AND 0xFF"

text \<open>
  \<^verbatim>\<open>createPacket(id, instruction, parameters?)\<close>. An absent \<^verbatim>\<open>parameters\<close> is the empty
  array: \<^verbatim>\<open>paramLength\<close> is 0 for both and nothing is copied. The \<^verbatim>\<open>set\<close> call always fits
  (the packet has \<^verbatim>\<open>paramLength + 6\<close> elements), so its \<^verbatim>\<open>RangeError\<close> branch keeps the
  packet as it is.
\<close>

definition createPacket :: "int \<Rightarrow> int \<Rightarrow> Uint8Array \<Rightarrow> Uint8Array" where
  "createPacket ident instruction parameters =
     (let paramLength = int (length parameters);
          packetLength = MIN_PACKET_LENGTH + paramLength;
          packet = newUint8Array packetLength;
          packet = store packet 0 (uint (HEADER ! 0));
          packet = store packet 1 (uint (HEADER ! 1));
          packet = store packet 2 ident;
          packet = store packet 3 (paramLength + 2);
          packet = store packet 4 instruction;
          packet = (if paramLength > 0
                    then (case setAt packet parameters 5 of Some p \<Rightarrow> p | None \<Rightarrow> packet)
                    else packet);
          checksum = calculateChecksum (sliceArr packet 2 (packetLength - 1))
      in store packet (packetLength - 1) checksum)"

text \<open>
  \<^verbatim>\<open>parsePacket(data)\<close>. Every index read is inside the array once the length checks
  have passed: \<^verbatim>\<open>expectedPacketLength - 1\<close> lies between 3 and \<^verbatim>\<open>data.length - 1\<close>.
\<close>

definition parsePacket :: "Uint8Array \<Rightarrow> ServoError + ResponsePacket" where
  "parsePacket data =
     (if int (length data) < MIN_PACKET_LENGTH
      then Inl (ServoError INVALID_RESPONSE [] None)
      else if data ! 0 \<noteq> HEADER ! 0 \<or> data ! 1 \<noteq> HEADER ! 1
      then Inl (ServoError INVALID_RESPONSE [] None)
      else
        let ident = uint (data ! 2);
            len = uint (data ! 3);
            err = uint (data ! 4);
            expectedPacketLength = HEADER_LENGTH + ID_LENGTH + LENGTH_LENGTH + len
        in if int (length data) < expectedPacketLength
           then Inl (ServoError INVALID_RESPONSE [] None)
           else
             let paramLength = len - 2;
                 parameters = (if paramLength > 0 then sliceArr data 5 (5 + paramLength) else []);
                 receivedChecksum = uint (data ! nat (expectedPacketLength - 1));
                 calculatedChecksum =
                   calculateChecksum (sliceArr data 2 (expectedPacketLength - 1))
             in if receivedChecksum \<noteq> calculatedChecksum
                then Inl (ServoError CHECKSUM_ERROR [] (Some ident))
                else Inr \<lparr> pkt_id = ident, pkt_instruction = 0, pkt_parameters = parameters,
                           pkt_length = len, pkt_error = err,
                           pkt_checksum = receivedChecksum \<rparr>)"

definition createPingPacket :: "int \<Rightarrow> Uint8Array" where
  "createPingPacket ident = createPacket ident PING []"

definition createReadPacket :: "int \<Rightarrow> int \<Rightarrow> int \<Rightarrow> Uint8Array" where
  "createReadPacket ident address len =
     (let params = [word_of_int address, word_of_int len]
      in createPacket ident READ params)"

text \<open>
  In the three builders below every \<^verbatim>\<open>set\<close> call fits by construction (the array was
  allocated with the size the copies add up to), so the \<^verbatim>\<open>RangeError\<close> branch keeps the
  array as it is.
\<close>

definition createWritePacket :: "int \<Rightarrow> int \<Rightarrow> Uint8Array \<Rightarrow> Uint8Array" where
  "createWritePacket ident address data =
     (let params = newUint8Array (1 + int (length data));
          params = store params 0 address;
          params = (case setAt params data 1 of Some q \<Rightarrow> q | None \<Rightarrow> params)
      in createPacket ident WRITE params)"

text \<open>
  \<^verbatim>\<open>createSyncWritePacket(address, length, data)\<close>: \<open>data\<close> is the array of
  \<^verbatim>\<open>{id, values}\<close> items, here pairs. \<open>putItem\<close> is the body of the second loop, which
  carries the array and the offset.
\<close>

definition putItem :: "int \<times> Uint8Array \<Rightarrow> Uint8Array \<times> int \<Rightarrow> Uint8Array \<times> int" where
  "putItem item st =
     (case st of (params, offset) \<Rightarrow>
        let params = store params offset (fst item);
            params = (case setAt params (snd item) (offset + 1) of
                        Some q \<Rightarrow> q | None \<Rightarrow> params)
        in (params, offset + (1 + int (length (snd item)))))"

definition createSyncWritePacket ::
  "int \<Rightarrow> int \<Rightarrow> (int \<times> Uint8Array) list \<Rightarrow> Uint8Array" where
  "createSyncWritePacket address len data =
     (let totalDataLength = fold (\<lambda>item total. total + (1 + int (length (snd item)))) data 0;
          params = newUint8Array (2 + totalDataLength);
          params = store params 0 address;
          params = store params 1 len;
          (params, offset) = fold putItem data (params, 2)
      in createPacket BROADCAST_ID SYNC_WRITE params)"

definition createSyncReadPacket :: "int \<Rightarrow> int \<Rightarrow> int list \<Rightarrow> Uint8Array" where
  "createSyncReadPacket address len ids =
     (let params = newUint8Array (2 + int (length ids));
          params = store params 0 address;
          params = store params 1 len;
          params = (case setAt params (map word_of_int ids) 2 of
                      Some q \<Rightarrow> q | None \<Rightarrow> params)
      in createPacket BROADCAST_ID SYNC_READ params)"

text \<open>
  \<^verbatim>\<open>checkError(packet)\<close>: \<^verbatim>\<open>errors\<close> collects one description per error bit that is
  set, in the order of the seven tests. The message of the \<^verbatim>\<open>ServoError\<close> joins them.
\<close>

definition checkError :: "ResponsePacket \<Rightarrow> ServoError + unit" where
  "checkError packet =
     (if pkt_error packet = 0 then Inr ()
      else
        let errors = [];
            errors = (if pkt_error packet AND VOLTAGE \<noteq> 0
                      then errors @ [''Input voltage error''] else errors);
            errors = (if pkt_error packet AND ANGLE \<noteq> 0
                      then errors @ [''Angle limit error''] else errors);
            errors = (if pkt_error packet AND OVERHEAT \<noteq> 0
                      then errors @ [''Overheat error''] else errors);
            errors = (if pkt_error packet AND RANGE \<noteq> 0
                      then errors @ [''Out of range error''] else errors);
            errors = (if pkt_error packet AND CHECKSUM \<noteq> 0
                      then errors @ [''Checksum error''] else errors);
            errors = (if pkt_error packet AND OVERLOAD \<noteq> 0
                      then errors @ [''Overload error''] else errors);
            errors = (if pkt_error packet AND INSTRUCTION \<noteq> 0
                      then errors @ [''Invalid instruction error''] else errors)
        in if length errors > 0
           then Inl (ServoError HARDWARE_ERROR errors (Some (pkt_id packet)))
           else Inr ())"

definition isValidPacketStart :: "Uint8Array \<Rightarrow> bool" where
  "isValidPacketStart data \<longleftrightarrow> length data \<ge> 2 \<and> data ! 0 = HEADER ! 0 \<and> data ! 1 = HEADER ! 1"

definition getPacketLength :: "Uint8Array \<Rightarrow> int option" where
  "getPacketLength data =
     (if length data < 4 then None
      else Some (HEADER_LENGTH + ID_LENGTH + LENGTH_LENGTH + uint (data ! 3)))"

section \<open>Control table and helpers\<close>

record ControlTableEntry =
  cte_address :: int
  cte_size :: int

definition entry :: "int \<Rightarrow> int \<Rightarrow> ControlTableEntry" where
  "entry a s = \<lparr> cte_address = a, cte_size = s \<rparr>"

definition SCS_SERIES_CONTROL_TABLE :: "(string \<times> ControlTableEntry) list" where
  "SCS_SERIES_CONTROL_TABLE =
    [(''Model'', entry 3 2), (''ID'', entry 5 1), (''Baud_Rate'', entry 6 1),
     (''Return_Delay'', entry 7 1), (''Response_Status_Level'', entry 8 1),
     (''Min_Angle_Limit'', entry 9 2), (''Max_Angle_Limit'', entry 11 2),
     (''Max_Temperature_Limit'', entry 13 1), (''Max_Voltage_Limit'', entry 14 1),
     (''Min_Voltage_Limit'', entry 15 1), (''Max_Torque_Limit'', entry 16 2),
     (''Phase'', entry 18 1), (''Unloading_Condition'', entry 19 1),
     (''LED_Alarm_Condition'', entry 20 1), (''P_Coefficient'', entry 21 1),
     (''D_Coefficient'', entry 22 1), (''I_Coefficient'', entry 23 1),
     (''Minimum_Startup_Force'', entry 24 2), (''CW_Dead_Zone'', entry 26 1),
     (''CCW_Dead_Zone'', entry 27 1), (''Protection_Current'', entry 28 2),
     (''Angular_Resolution'', entry 30 1), (''Offset'', entry 31 2), (''Mode'', entry 33 1),
     (''Protective_Torque'', entry 34 1), (''Protection_Time'', entry 35 1),
     (''Overload_Torque'', entry 36 1),
     (''Speed_closed_loop_P_proportional_coefficient'', entry 37 1),
     (''Over_Current_Protection_Time'', entry 38 1),
     (''Velocity_closed_loop_I_integral_coefficient'', entry 39 1),
     (''Torque_Enable'', entry 40 1), (''Acceleration'', entry 41 1),
     (''Goal_Position'', entry 42 2), (''Goal_Time'', entry 44 2),
     (''Goal_Speed'', entry 46 2), (''Torque_Limit'', entry 48 2), (''Lock'', entry 55 1),
     (''Present_Position'', entry 56 2), (''Present_Speed'', entry 58 2),
     (''Present_Load'', entry 60 2), (''Present_Voltage'', entry 62 1),
     (''Present_Temperature'', entry 63 1), (''Status'', entry 65 1),
     (''Moving'', entry 66 1), (''Present_Current'', entry 69 2),
     (''Maximum_Acceleration'', entry 85 2)]"

definition MODEL_CONTROL_TABLE :: "(string \<times> (string \<times> ControlTableEntry) list) list" where
  "MODEL_CONTROL_TABLE =
    [(''scs_series'', SCS_SERIES_CONTROL_TABLE), (''sts3215'', SCS_SERIES_CONTROL_TABLE),
     (''sms_series'', SCS_SERIES_CONTROL_TABLE)]"

text \<open>
  \<^verbatim>\<open>getControlTableEntry(model, dataName)\<close> throws a plain \<^verbatim>\<open>Error\<close> for an unknown model
  and returns \<^verbatim>\<open>undefined\<close> (\<open>None\<close>) for an unknown name. Only the tables' own keys are
  looked up; the properties every JavaScript object inherits are left out.
\<close>

definition getControlTableEntry :: "string \<Rightarrow> string \<Rightarrow> ServoError + ControlTableEntry option" where
  "getControlTableEntry model dataName =
     (case map_of MODEL_CONTROL_TABLE model of
        None \<Rightarrow> Inl PlainError
      | Some controlTable \<Rightarrow> Inr (map_of controlTable dataName))"

definition SCS_SERIES_BAUD_TABLE :: "(int \<times> int) list" where
  "SCS_SERIES_BAUD_TABLE =
    [(0, 1000000), (1, 500000), (2, 250000), (3, 128000), (4, 115200), (5, 57600),
     (6, 38400), (7, 19200)]"

definition getBaudRateValue :: "int \<Rightarrow> ServoError + int" where
  "getBaudRateValue baudRate =
     (case find (\<lambda>(regStr, baud). baud = baudRate) SCS_SERIES_BAUD_TABLE of
        Some (regStr, baud) \<Rightarrow> Inr regStr
      | None \<Rightarrow> Inl PlainError)"

section \<open>WebSerialPortHandler\<close>

text \<open>
  The port as the protocol code sees it. \<open>isOpen\<close> stands for the test
  \<^verbatim>\<open>this.reader && this.isOpen\<close> (and the same with the writer): \<^verbatim>\<open>connect\<close> sets all
  three, \<^verbatim>\<open>disconnect\<close> clears them. \<open>readBuffer\<close> is the buffer the background reader
  fills. \<open>written\<close> is the environment's side of \<^verbatim>\<open>writer.write\<close>: the packets handed to
  the serial port, oldest first; a write the transport rejects (\<^verbatim>\<open>WRITE_ERROR\<close>) is not
  modelled.

  Bytes arrive while the code waits. \<open>arrivals\<close> is what the environment will do during
  the coming waits, in order: \<open>Some chunk\<close> is a chunk that the background reader
  appends (\<^verbatim>\<open>appendToBuffer\<close>) before the deadline of the wait in progress, \<open>None\<close> is a
  deadline that passes with the awaited bytes still missing. When the list is used up
  nothing arrives any more and every further wait runs into its deadline. The length of
  a timeout in milliseconds is therefore not part of the model.
\<close>

record WebSerialPortHandler =
  isOpen :: bool
  readBuffer :: Uint8Array
  written :: "Uint8Array list"
  arrivals :: "Uint8Array option list"

text \<open>
  The polling loop of \<^verbatim>\<open>read\<close> and \<^verbatim>\<open>waitForData\<close>: leave as soon as the buffer is
  good enough, otherwise take the next thing the environment does.
\<close>

fun pollBuffer ::
  "(Uint8Array \<Rightarrow> bool) \<Rightarrow> Uint8Array \<Rightarrow> Uint8Array option list
     \<Rightarrow> bool \<times> Uint8Array \<times> Uint8Array option list" where
  "pollBuffer enough buf [] = (enough buf, buf, [])"
| "pollBuffer enough buf (None # rest) =
     (if enough buf then (True, buf, None # rest) else (False, buf, rest))"
| "pollBuffer enough buf (Some chunk # rest) =
     (if enough buf then (True, buf, Some chunk # rest)
      else pollBuffer enough (buf @ chunk) rest)"

definition waitForData ::
  "(Uint8Array \<Rightarrow> bool) \<Rightarrow> WebSerialPortHandler
     \<Rightarrow> (ServoError + unit) \<times> WebSerialPortHandler" where
  "waitForData predicate p =
     (case pollBuffer predicate (readBuffer p) (arrivals p) of
        (ok, buf, rest) \<Rightarrow>
          (if ok then Inr () else Inl (ServoError TIMEOUT [] None),
           p\<lparr>readBuffer := buf, arrivals := rest\<rparr>))"

definition read ::
  "int \<Rightarrow> WebSerialPortHandler \<Rightarrow> (ServoError + Uint8Array) \<times> WebSerialPortHandler" where
  "read len p =
     (if \<not> isOpen p then (Inl (ServoError CONNECTION_LOST [] None), p)
      else case pollBuffer (\<lambda>buf. \<not> int (length buf) < len) (readBuffer p) (arrivals p) of
        (ok, buf, rest) \<Rightarrow>
          if \<not> ok
          then (Inl (ServoError TIMEOUT [] None), p\<lparr>readBuffer := buf, arrivals := rest\<rparr>)
          else (Inr (sliceArr buf 0 len),
                p\<lparr>readBuffer := sliceArr buf len (int (length buf)), arrivals := rest\<rparr>))"

definition flush :: "WebSerialPortHandler \<Rightarrow> WebSerialPortHandler" where
  "flush p = p\<lparr>readBuffer := []\<rparr>"

definition writePort ::
  "Uint8Array \<Rightarrow> WebSerialPortHandler \<Rightarrow> (ServoError + unit) \<times> WebSerialPortHandler" where
  "writePort data p =
     (if \<not> isOpen p then (Inl (ServoError CONNECTION_LOST [] None), p)
      else (Inr (), p\<lparr>written := written p @ [data]\<rparr>))"

definition peekBuffer :: "int \<Rightarrow> WebSerialPortHandler \<Rightarrow> Uint8Array" where
  "peekBuffer len p = sliceArr (readBuffer p) 0 (min len (int (length (readBuffer p))))"

text \<open>What is still to be consumed: the measure of the header loop.\<close>

fun backlog :: "Uint8Array option list \<Rightarrow> nat" where
  "backlog [] = 0"
| "backlog (None # rest) = Suc (backlog rest)"
| "backlog (Some chunk # rest) = Suc (length chunk + backlog rest)"

definition pending :: "WebSerialPortHandler \<Rightarrow> nat" where
  "pending p = length (readBuffer p) + backlog (arrivals p)"

lemma pollBuffer_done:
  "pollBuffer enough buf rest = (True, buf', rest') \<Longrightarrow> enough buf'"
  by (induction enough buf rest rule: pollBuffer.induct) (auto split: if_splits)

lemma pollBuffer_pending:
  "pollBuffer enough buf rest = (ok, buf', rest') \<Longrightarrow>
     length buf' + backlog rest' \<le> length buf + backlog rest"
  by (induction enough buf rest rule: pollBuffer.induct) (auto split: if_splits)

lemma pollBuffer_now: "enough buf \<Longrightarrow> pollBuffer enough buf rest = (True, buf, rest)"
  by (induction enough buf rest rule: pollBuffer.induct) auto

lemma waitForData_pending:
  "waitForData pred p = (r, p') \<Longrightarrow> pending p' \<le> pending p"
  by (auto simp: waitForData_def pending_def split: prod.splits dest: pollBuffer_pending)

lemma waitForData_ok:
  "waitForData pred p = (Inr u, p') \<Longrightarrow> pred (readBuffer p')"
  by (auto simp: waitForData_def split: prod.splits if_splits dest: pollBuffer_done)

lemma read_available:
  assumes "isOpen p" "len \<le> int (length (readBuffer p))"
  shows "read len p =
           (Inr (sliceArr (readBuffer p) 0 len),
            p\<lparr>readBuffer := sliceArr (readBuffer p) len (int (length (readBuffer p))),
              arrivals := arrivals p\<rparr>)"
proof -
  have "pollBuffer (\<lambda>buf. \<not> int (length buf) < len) (readBuffer p) (arrivals p)
          = (True, readBuffer p, arrivals p)"
    by (rule pollBuffer_now) (use assms in simp)
  then show ?thesis using assms by (simp add: read_def)
qed

lemma read_one_pending:
  assumes "read 1 p = (Inr b, p')" "2 \<le> length (readBuffer p)"
  shows "pending p' < pending p"
proof -
  have o: "isOpen p" using assms(1) by (auto simp: read_def split: if_splits)
  have "read 1 p =
          (Inr (sliceArr (readBuffer p) 0 1),
           p\<lparr>readBuffer := sliceArr (readBuffer p) 1 (int (length (readBuffer p))),
             arrivals := arrivals p\<rparr>)"
    by (rule read_available[OF o]) (use assms(2) in simp)
  with assms show ?thesis
    by (auto simp: pending_def sliceArr_def clampIndex_def Let_def)
qed

section \<open>The receive loop\<close>

text \<open>
  The \<^verbatim>\<open>while (true)\<close> loop that opens both \<^verbatim>\<open>ProtocolHandler.sendAndReceive\<close> and
  \<^verbatim>\<open>GroupSyncRead.readResponse\<close>: wait for two bytes, peek at them, leave the loop on
  \<^verbatim>\<open>FF FF\<close>, otherwise consume one byte and go round again. Each round that does not
  leave the loop consumes a byte, so the loop ends.
\<close>

function awaitHeader :: "WebSerialPortHandler \<Rightarrow> (ServoError + unit) \<times> WebSerialPortHandler" where
  "awaitHeader p =
     (case waitForData (\<lambda>buf. length buf \<ge> 2) p of
        (Inl e, p1) \<Rightarrow> (Inl e, p1)
      | (Inr u, p1) \<Rightarrow>
          (let h = peekBuffer 2 p1
           in if h ! 0 = 0xFF \<and> h ! 1 = 0xFF then (Inr (), p1)
              else (case read 1 p1 of
                      (Inl e, p2) \<Rightarrow> (Inl e, p2)
                    | (Inr b, p2) \<Rightarrow> awaitHeader p2)))"
  by pat_completeness auto
termination
proof (relation "measure pending")
  show "wf (measure pending)" by simp
next
  fix p p1 p2 :: WebSerialPortHandler and x xb and u :: unit and b :: Uint8Array
  assume w: "(x, p1) = waitForData (\<lambda>buf. 2 \<le> length buf) p" "x = Inr u"
    and r: "(xb, p2) = read 1 p1" "xb = Inr b"
  have w': "waitForData (\<lambda>buf. 2 \<le> length buf) p = (Inr u, p1)"
    using w by simp
  have r': "read 1 p1 = (Inr b, p2)"
    using r by simp
  have "2 \<le> length (readBuffer p1)"
    by (rule waitForData_ok[OF w'])
  from read_one_pending[OF r' this] waitForData_pending[OF w']
  show "(p2, p) \<in> measure pending" by simp
qed

declare awaitHeader.simps [simp del]

text \<open>
  The statements after the loop, the same in \<^verbatim>\<open>sendAndReceive\<close> (lines 49 to 74) and in
  \<^verbatim>\<open>readResponse\<close> (lines 176 to 201), written once: read the four bytes up to the length
  byte, read the rest of the frame, put both into \<^verbatim>\<open>fullPacket\<close>, parse, compare the id,
  check the error byte. A \<^verbatim>\<open>set\<close> that does not fit would be a \<^verbatim>\<open>RangeError\<close>.
\<close>

definition receiveResponse ::
  "int \<Rightarrow> WebSerialPortHandler \<Rightarrow> (ServoError + ResponsePacket) \<times> WebSerialPortHandler" where
  "receiveResponse expectedId p =
     (case awaitHeader p of
        (Inl e, p1) \<Rightarrow> (Inl e, p1)
      | (Inr u, p1) \<Rightarrow>
     (case read 4 p1 of
        (Inl e, p2) \<Rightarrow> (Inl e, p2)
      | (Inr headerAndLen, p2) \<Rightarrow>
     (case getPacketLength headerAndLen of
        None \<Rightarrow> (Inl (ServoError INVALID_RESPONSE [] None), p2)
      | Some pktLen \<Rightarrow>
     (case read (pktLen - 4) p2 of
        (Inl e, p3) \<Rightarrow> (Inl e, p3)
      | (Inr payload, p3) \<Rightarrow>
     (case setAt (newUint8Array pktLen) headerAndLen 0 of
        None \<Rightarrow> (Inl PlainError, p3)
      | Some fullPacket \<Rightarrow>
     (case setAt fullPacket payload 4 of
        None \<Rightarrow> (Inl PlainError, p3)
      | Some fullPacket \<Rightarrow>
     (case parsePacket fullPacket of
        Inl e \<Rightarrow> (Inl e, p3)
      | Inr response \<Rightarrow>
          if pkt_id response \<noteq> expectedId
          then (Inl (ServoError INVALID_RESPONSE [] None), p3)
          else (case checkError response of
                  Inl e \<Rightarrow> (Inl e, p3)
                | Inr u \<Rightarrow> (Inr response, p3)))))))))"

section \<open>ProtocolHandler\<close>

text \<open>
  The handler holds the port and the model name. The settle delays after a write or a
  reset (\<^verbatim>\<open>setTimeout\<close>) pass no data and are left out.
\<close>

record ProtocolHandler =
  ph_port :: WebSerialPortHandler
  ph_model :: string

record PingResult =
  pr_id :: int
  pr_modelNumber :: int
  pr_firmwareVersion :: int

definition sendAndReceive ::
  "Uint8Array \<Rightarrow> int \<Rightarrow> ProtocolHandler \<Rightarrow> (ServoError + ResponsePacket) \<times> ProtocolHandler" where
  "sendAndReceive packet expectedId ph =
     (case writePort packet (flush (ph_port ph)) of
        (Inl e, p1) \<Rightarrow> (Inl e, ph\<lparr>ph_port := p1\<rparr>)
      | (Inr u, p1) \<Rightarrow>
          (case receiveResponse expectedId p1 of
             (r, p2) \<Rightarrow> (r, ph\<lparr>ph_port := p2\<rparr>)))"

definition readData ::
  "int \<Rightarrow> int \<Rightarrow> int \<Rightarrow> ProtocolHandler \<Rightarrow> (ServoError + Uint8Array) \<times> ProtocolHandler" where
  "readData ident address len ph =
     (let packet = createReadPacket ident address len
      in case sendAndReceive packet ident ph of
           (Inl e, ph1) \<Rightarrow> (Inl e, ph1)
         | (Inr response, ph1) \<Rightarrow>
             if int (length (pkt_parameters response)) < len
             then (Inl (ServoError INVALID_RESPONSE [] (Some ident)), ph1)
             else (Inr (sliceArr (pkt_parameters response) 0 len), ph1))"

text \<open>
  \<^verbatim>\<open>ping\<close>: the two reads after the ping sit in a \<^verbatim>\<open>try\<close> whose \<^verbatim>\<open>catch\<close> ignores the
  error; a model number already read is kept when the firmware read fails.
\<close>

definition ping :: "int \<Rightarrow> ProtocolHandler \<Rightarrow> (ServoError + PingResult) \<times> ProtocolHandler" where
  "ping ident ph =
     (let pingPkt = createPingPacket ident
      in case sendAndReceive pingPkt ident ph of
           (Inl e, ph1) \<Rightarrow> (Inl e, ph1)
         | (Inr r, ph1) \<Rightarrow>
             (case readData ident 3 2 ph1 of
                (Inl e, ph2) \<Rightarrow>
                  (Inr \<lparr> pr_id = ident, pr_modelNumber = 0, pr_firmwareVersion = 0 \<rparr>, ph2)
              | (Inr modelData, ph2) \<Rightarrow>
                  (let modelNumber = makeWord (uint (modelData ! 0)) (uint (modelData ! 1))
                   in case readData ident 2 1 ph2 of
                        (Inl e, ph3) \<Rightarrow>
                          (Inr \<lparr> pr_id = ident, pr_modelNumber = modelNumber,
                                 pr_firmwareVersion = 0 \<rparr>, ph3)
                      | (Inr fwData, ph3) \<Rightarrow>
                          (Inr \<lparr> pr_id = ident, pr_modelNumber = modelNumber,
                                 pr_firmwareVersion = uint (fwData ! 0) \<rparr>, ph3))))"

definition writeData ::
  "int \<Rightarrow> int \<Rightarrow> Uint8Array \<Rightarrow> ProtocolHandler \<Rightarrow> (ServoError + unit) \<times> ProtocolHandler" where
  "writeData ident address data ph =
     (let packet = createWritePacket ident address data
      in case sendAndReceive packet ident ph of
           (Inl e, ph1) \<Rightarrow> (Inl e, ph1)
         | (Inr response, ph1) \<Rightarrow> (Inr (), ph1))"

definition readByte ::
  "int \<Rightarrow> int \<Rightarrow> ProtocolHandler \<Rightarrow> (ServoError + int) \<times> ProtocolHandler" where
  "readByte ident address ph =
     (case readData ident address 1 ph of
        (Inl e, ph1) \<Rightarrow> (Inl e, ph1)
      | (Inr data, ph1) \<Rightarrow> (Inr (uint (data ! 0)), ph1))"

definition writeByte ::
  "int \<Rightarrow> int \<Rightarrow> int \<Rightarrow> ProtocolHandler \<Rightarrow> (ServoError + unit) \<times> ProtocolHandler" where
  "writeByte ident address v ph =
     (let data = [word_of_int (v AND 0xFF)]
      in writeData ident address data ph)"

definition readWord ::
  "int \<Rightarrow> int \<Rightarrow> ProtocolHandler \<Rightarrow> (ServoError + int) \<times> ProtocolHandler" where
  "readWord ident address ph =
     (case readData ident address 2 ph of
        (Inl e, ph1) \<Rightarrow> (Inl e, ph1)
      | (Inr data, ph1) \<Rightarrow> (Inr (makeWord (uint (data ! 0)) (uint (data ! 1))), ph1))"

definition writeWord ::
  "int \<Rightarrow> int \<Rightarrow> int \<Rightarrow> ProtocolHandler \<Rightarrow> (ServoError + unit) \<times> ProtocolHandler" where
  "writeWord ident address v ph =
     (let data = [word_of_int (getLowByte v), word_of_int (getHighByte v)]
      in writeData ident address data ph)"

definition setTorque ::
  "int \<Rightarrow> bool \<Rightarrow> ProtocolHandler \<Rightarrow> (ServoError + unit) \<times> ProtocolHandler" where
  "setTorque ident enabled ph =
     (case getControlTableEntry (ph_model ph) ''Torque_Enable'' of
        Inl e \<Rightarrow> (Inl e, ph)
      | Inr None \<Rightarrow> (Inl (ServoError INVALID_PARAMETER [] None), ph)
      | Inr (Some e) \<Rightarrow>
          writeByte ident (cte_address e) (if enabled then TORQUE_ENABLE else TORQUE_DISABLE) ph)"

definition setID ::
  "int \<Rightarrow> int \<Rightarrow> ProtocolHandler \<Rightarrow> (ServoError + unit) \<times> ProtocolHandler" where
  "setID ident newId ph =
     (if newId < 0 \<or> newId > 253 then (Inl (ServoError INVALID_PARAMETER [] None), ph)
      else case getControlTableEntry (ph_model ph) ''ID'' of
        Inl e \<Rightarrow> (Inl e, ph)
      | Inr None \<Rightarrow> (Inl (ServoError INVALID_PARAMETER [] None), ph)
      | Inr (Some e) \<Rightarrow> writeByte ident (cte_address e) newId ph)"

definition setBaudRate ::
  "int \<Rightarrow> int \<Rightarrow> ProtocolHandler \<Rightarrow> (ServoError + unit) \<times> ProtocolHandler" where
  "setBaudRate ident baudRate ph =
     (case getBaudRateValue baudRate of
        Inl e \<Rightarrow> (Inl (ServoError INVALID_PARAMETER [] None), ph)
      | Inr v \<Rightarrow>
          (case getControlTableEntry (ph_model ph) ''Baud_Rate'' of
             Inl e \<Rightarrow> (Inl e, ph)
           | Inr None \<Rightarrow> (Inl (ServoError INVALID_PARAMETER [] None), ph)
           | Inr (Some e) \<Rightarrow> writeByte ident (cte_address e) v ph))"

definition factoryReset ::
  "int \<Rightarrow> ProtocolHandler \<Rightarrow> (ServoError + unit) \<times> ProtocolHandler" where
  "factoryReset ident ph =
     (let packet = createPacket ident FACTORY_RESET []
      in case sendAndReceive packet ident ph of
           (Inl e, ph1) \<Rightarrow> (Inl e, ph1)
         | (Inr response, ph1) \<Rightarrow> (Inr (), ph1))"

definition reboot ::
  "int \<Rightarrow> ProtocolHandler \<Rightarrow> (ServoError + unit) \<times> ProtocolHandler" where
  "reboot ident ph =
     (let packet = createPacket ident REBOOT []
      in case sendAndReceive packet ident ph of
           (Inl e, ph1) \<Rightarrow> (Inl e, ph1)
         | (Inr response, ph1) \<Rightarrow> (Inr (), ph1))"

section \<open>Group operations\<close>

text \<open>
  A JavaScript \<^verbatim>\<open>Map\<close> iterates in insertion order, and \<^verbatim>\<open>set\<close> on a key that is present
  replaces the value where the key stands. A \<^verbatim>\<open>Set\<close> keeps the order of first insertion.
\<close>

fun mapSet :: "('k \<times> 'v) list \<Rightarrow> 'k \<Rightarrow> 'v \<Rightarrow> ('k \<times> 'v) list" where
  "mapSet [] k v = [(k, v)]"
| "mapSet ((k', v') # m) k v = (if k' = k then (k, v) # m else (k', v') # mapSet m k v)"

definition mapGet :: "('k \<times> 'v) list \<Rightarrow> 'k \<Rightarrow> 'v option" where
  "mapGet m k = map_of m k"

definition mapDelete :: "('k \<times> 'v) list \<Rightarrow> 'k \<Rightarrow> ('k \<times> 'v) list" where
  "mapDelete m k = filter (\<lambda>kv. fst kv \<noteq> k) m"

definition setAdd :: "'k list \<Rightarrow> 'k \<Rightarrow> 'k list" where
  "setAdd s k = (if k \<in> set s then s else s @ [k])"

definition setDelete :: "'k list \<Rightarrow> 'k \<Rightarrow> 'k list" where
  "setDelete s k = filter (\<lambda>x. x \<noteq> k) s"

subsection \<open>GroupSyncWrite\<close>

record GroupSyncWrite =
  gsw_port :: WebSerialPortHandler
  gsw_address :: int
  gsw_dataLength :: int
  gsw_dataMap :: "(int \<times> Uint8Array) list"

definition gsw_addParam ::
  "int \<Rightarrow> Uint8Array \<Rightarrow> GroupSyncWrite \<Rightarrow> (ServoError + unit) \<times> GroupSyncWrite" where
  "gsw_addParam ident data g =
     (if int (length data) \<noteq> gsw_dataLength g
      then (Inl (ServoError INVALID_PARAMETER [] (Some ident)), g)
      else (Inr (), g\<lparr>gsw_dataMap := mapSet (gsw_dataMap g) ident data\<rparr>))"

definition gsw_removeParam :: "int \<Rightarrow> GroupSyncWrite \<Rightarrow> GroupSyncWrite" where
  "gsw_removeParam ident g = g\<lparr>gsw_dataMap := mapDelete (gsw_dataMap g) ident\<rparr>"

definition gsw_clearParam :: "GroupSyncWrite \<Rightarrow> GroupSyncWrite" where
  "gsw_clearParam g = g\<lparr>gsw_dataMap := []\<rparr>"

definition txPacket :: "GroupSyncWrite \<Rightarrow> (ServoError + unit) \<times> GroupSyncWrite" where
  "txPacket g =
     (if length (gsw_dataMap g) = 0 then (Inl (ServoError INVALID_PARAMETER [] None), g)
      else
        let items = fold (\<lambda>(ident, data) items. items @ [(ident, data)]) (gsw_dataMap g) [];
            packet = createSyncWritePacket (gsw_address g) (gsw_dataLength g) items
        in case writePort packet (flush (gsw_port g)) of
             (r, p1) \<Rightarrow> (r, g\<lparr>gsw_port := p1\<rparr>))"

subsection \<open>GroupSyncRead\<close>

record GroupSyncRead =
  gsr_port :: WebSerialPortHandler
  gsr_address :: int
  gsr_dataLength :: int
  gsr_idList :: "int list"
  gsr_dataMap :: "(int \<times> Uint8Array) list"

definition gsr_addParam :: "int \<Rightarrow> GroupSyncRead \<Rightarrow> GroupSyncRead" where
  "gsr_addParam ident g = g\<lparr>gsr_idList := setAdd (gsr_idList g) ident\<rparr>"

definition gsr_removeParam :: "int \<Rightarrow> GroupSyncRead \<Rightarrow> GroupSyncRead" where
  "gsr_removeParam ident g =
     g\<lparr>gsr_idList := setDelete (gsr_idList g) ident,
       gsr_dataMap := mapDelete (gsr_dataMap g) ident\<rparr>"

definition gsr_clearParam :: "GroupSyncRead \<Rightarrow> GroupSyncRead" where
  "gsr_clearParam g = g\<lparr>gsr_idList := [], gsr_dataMap := []\<rparr>"

text \<open>
  \<^verbatim>\<open>readResponse\<close> is the receive loop and the statements after it, on the group's port.
\<close>

definition readResponse ::
  "int \<Rightarrow> GroupSyncRead \<Rightarrow> (ServoError + ResponsePacket) \<times> GroupSyncRead" where
  "readResponse expectedId g =
     (case receiveResponse expectedId (gsr_port g) of
        (r, p1) \<Rightarrow> (r, g\<lparr>gsr_port := p1\<rparr>))"

text \<open>
  The \<^verbatim>\<open>for (const id of ids)\<close> loop of \<^verbatim>\<open>txRxPacket\<close>: the \<^verbatim>\<open>catch\<close> logs the error and
  goes on with the next id.
\<close>

fun readEach :: "int list \<Rightarrow> GroupSyncRead \<Rightarrow> GroupSyncRead" where
  "readEach [] g = g"
| "readEach (ident # ids) g =
     (case readResponse ident g of
        (Inl e, g1) \<Rightarrow> readEach ids g1
      | (Inr response, g1) \<Rightarrow>
          if int (length (pkt_parameters response)) \<ge> gsr_dataLength g1
          then readEach ids
                 (g1\<lparr>gsr_dataMap :=
                      mapSet (gsr_dataMap g1) ident
                        (sliceArr (pkt_parameters response) 0 (gsr_dataLength g1))\<rparr>)
          else readEach ids g1)"

definition txRxPacket :: "GroupSyncRead \<Rightarrow> (ServoError + unit) \<times> GroupSyncRead" where
  "txRxPacket g =
     (if length (gsr_idList g) = 0 then (Inl (ServoError INVALID_PARAMETER [] None), g)
      else
        let g = g\<lparr>gsr_dataMap := []\<rparr>;
            ids = gsr_idList g;
            packet = createSyncReadPacket (gsr_address g) (gsr_dataLength g) ids
        in case writePort packet (flush (gsr_port g)) of
             (Inl e, p1) \<Rightarrow> (Inl e, g\<lparr>gsr_port := p1\<rparr>)
           | (Inr u, p1) \<Rightarrow> (Inr (), readEach ids (g\<lparr>gsr_port := p1\<rparr>)))"

definition getData :: "int \<Rightarrow> GroupSyncRead \<Rightarrow> Uint8Array option" where
  "getData ident g = mapGet (gsr_dataMap g) ident"

definition isAvailable :: "int \<Rightarrow> GroupSyncRead \<Rightarrow> bool" where
  "isAvailable ident g =
     (case mapGet (gsr_dataMap g) ident of
        None \<Rightarrow> False
      | Some data \<Rightarrow> int (length data) \<ge> gsr_dataLength g)"

section \<open>Reference definitions for the properties\<close>

text \<open>
  The conditions a device can report, each with its bit, in the order of the error bits;
  \<open>setConditions e\<close> are the descriptions of the conditions whose bit is set in \<open>e\<close>.
\<close>

definition ERROR_CONDITIONS :: "(int \<times> string) list" where
  "ERROR_CONDITIONS =
     [(VOLTAGE, ''Input voltage error''), (ANGLE, ''Angle limit error''),
      (OVERHEAT, ''Overheat error''), (RANGE, ''Out of range error''),
      (CHECKSUM, ''Checksum error''), (OVERLOAD, ''Overload error''),
      (INSTRUCTION, ''Invalid instruction error'')]"

definition setConditions :: "int \<Rightarrow> string list" where
  "setConditions e = map snd (filter (\<lambda>(mask, name). e AND mask \<noteq> 0) ERROR_CONDITIONS)"

text \<open>
  The parameter block of a sync write: one \<open>(id, value bytes)\<close> tuple per item, in order.
  \<open>addParams\<close> is a caller that adds the entries one after the other; \<open>firstAdded\<close> are
  the ids in the order in which they were first added, \<open>lastValue\<close> the value added last
  for an id.
\<close>

definition encodeEntries :: "(int \<times> Uint8Array) list \<Rightarrow> Uint8Array" where
  "encodeEntries items = concat (map (\<lambda>(ident, data). word_of_int ident # data) items)"

definition firstAdded :: "'a list \<Rightarrow> 'a list" where
  "firstAdded xs = rev (remdups (rev xs))"

definition lastValue :: "('k \<times> 'v) list \<Rightarrow> 'k \<Rightarrow> 'v" where
  "lastValue entries k = the (map_of (rev entries) k)"

definition addParams :: "(int \<times> Uint8Array) list \<Rightarrow> GroupSyncWrite \<Rightarrow> GroupSyncWrite" where
  "addParams entries g = fold (\<lambda>(ident, data) g. snd (gsw_addParam ident data g)) entries g"

text \<open>
  A header marker \<open>FF FF\<close> starts at position \<open>i\<close> of the buffer; none starts at a
  position before \<open>n\<close>. A complete frame is one that \<open>parsePacket\<close> accepts and that is
  exactly as long as its length field says. \<open>verdict\<close> is what the statements after the
  receive loop make of a frame: parse it, compare the id, check the error byte.
\<close>

definition headerAt :: "Uint8Array \<Rightarrow> nat \<Rightarrow> bool" where
  "headerAt buf i \<longleftrightarrow> buf ! i = 0xFF \<and> buf ! (i + 1) = 0xFF"

definition noHeaderBefore :: "nat \<Rightarrow> Uint8Array \<Rightarrow> bool" where
  "noHeaderBefore n buf \<longleftrightarrow> list_all (\<lambda>i. \<not> headerAt buf i) [0..<n]"

definition completeFrame :: "Uint8Array \<Rightarrow> bool" where
  "completeFrame frame \<longleftrightarrow>
     (case parsePacket frame of Inl e \<Rightarrow> False
      | Inr response \<Rightarrow> int (length frame) = 4 + pkt_length response)"

definition verdict :: "int \<Rightarrow> Uint8Array \<Rightarrow> ServoError + ResponsePacket" where
  "verdict expectedId frame =
     (case parsePacket frame of
        Inl e \<Rightarrow> Inl e
      | Inr response \<Rightarrow>
          if pkt_id response \<noteq> expectedId then Inl (ServoError INVALID_RESPONSE [] None)
          else (case checkError response of Inl e \<Rightarrow> Inl e | Inr u \<Rightarrow> Inr response))"

text \<open>
  The models that have a control table. \<open>unanswered packet ph\<close> is how a transaction ends
  to which nobody answers: the input buffer flushed, the packet handed to the port, and
  a timeout.
\<close>

definition knownModel :: "string \<Rightarrow> bool" where
  "knownModel m \<longleftrightarrow> m \<in> set (map fst MODEL_CONTROL_TABLE)"

definition unanswered :: "Uint8Array \<Rightarrow> ProtocolHandler \<Rightarrow> (ServoError + 'a) \<times> ProtocolHandler" where
  "unanswered packet ph =
     (Inl (ServoError TIMEOUT [] None),
      ph\<lparr>ph_port := (ph_port ph)\<lparr>readBuffer := [],
                       written := written (ph_port ph) @ [packet]\<rparr>\<rparr>)"

text \<open>States for the examples.\<close>

definition examplePort :: WebSerialPortHandler where
  "examplePort = \<lparr> isOpen = True, readBuffer = [0x55], written = [], arrivals = [] \<rparr>"

definition exampleRead :: GroupSyncRead where
  "exampleRead = \<lparr> gsr_port = examplePort\<lparr>readBuffer := [0x00, 0xFF, 0x12, 0xFF, 0xFF, 0x01, 0x04, 0x00, 0x00, 0x08, 0xF2, 0xAA]\<rparr>,
     gsr_address = 56, gsr_dataLength = 2, gsr_idList = [1], gsr_dataMap = [] \<rparr>"

definition exampleHandler :: ProtocolHandler where
  "exampleHandler =
     \<lparr> ph_port = examplePort\<lparr>arrivals := [Some [0x00, 0xFF, 0x12, 0xFF, 0xFF, 0x01, 0x04, 0x00,
                                                0x00, 0x08, 0xF2, 0xAA]]\<rparr>,
       ph_model = ''scs_series'' \<rparr>"

definition exampleWrite :: GroupSyncWrite where
  "exampleWrite = \<lparr> gsw_port = examplePort, gsw_address = 42, gsw_dataLength = 2, gsw_dataMap = [] \<rparr>"

text \<open>
  A handler to which nothing arrives; one to which a status frame with id \<open>FE\<close> arrives;
  one to which device 1 returns the two data bytes \<open>34 12\<close>. A group read whose map
  holds a result of an earlier run, and to which the replies of devices 1 and 3 arrive
  one after the other, device 2 staying silent.
\<close>

definition silentHandler :: ProtocolHandler where
  "silentHandler = \<lparr> ph_port = examplePort, ph_model = ''scs_series'' \<rparr>"

definition echoHandler :: ProtocolHandler where
  "echoHandler =
     \<lparr> ph_port = examplePort\<lparr>arrivals := [Some [0xFF, 0xFF, 0xFE, 0x02, 0x00, 0xFF]]\<rparr>,
       ph_model = ''scs_series'' \<rparr>"

definition wordHandler :: ProtocolHandler where
  "wordHandler =
     \<lparr> ph_port = examplePort\<lparr>arrivals := [Some [0xFF, 0xFF, 0x01, 0x04, 0x00, 0x34, 0x12, 0xB4]]\<rparr>,
       ph_model = ''scs_series'' \<rparr>"

definition silentSecond :: GroupSyncRead where
  "silentSecond =
     \<lparr> gsr_port = examplePort\<lparr>arrivals :=
                  [Some [0xFF, 0xFF, 0x01, 0x04, 0x00, 0x00, 0x08, 0xF2],
                   Some [0xFF, 0xFF, 0x03, 0x04, 0x00, 0x10, 0x04, 0xE4]]\<rparr>,
       gsr_address = 56, gsr_dataLength = 2, gsr_idList = [],
       gsr_dataMap = [(2, [0x07, 0x07])] \<rparr>"

section \<open>Packet codec: auxiliary facts\<close>

lemma fold_sum: "fold (\<lambda>byte sum. sum + uint byte) data s = s + sum_list (map uint data)"
  by (induction data arbitrary: s) auto

lemma word_of_int_sum: "(word_of_int (sum_list (map uint data)) :: byte) = sum_list data"
  by (induction data) (auto simp: wi_hom_syms)

lemma not_and_255: "(NOT (k::int)) AND 0xFF = uint (NOT (word_of_int k :: byte))"
proof -
  have "(0xFF::int) = mask 8" by (simp add: mask_eq_exp_minus_1)
  then show ?thesis
    by (auto simp add: bit_eq_iff bit_simps)
qed

lemma calculateChecksum_word: "calculateChecksum data = uint (NOT (sum_list data))"
  by (simp add: calculateChecksum_def fold_sum not_and_255 word_of_int_sum)

lemma MIN_PACKET_LENGTH_eq: "MIN_PACKET_LENGTH = 6"
  by (simp add: MIN_PACKET_LENGTH_def HEADER_LENGTH_def ID_LENGTH_def LENGTH_LENGTH_def
      INSTRUCTION_LENGTH_def CHECKSUM_LENGTH_def)

lemma newUint8Array_packet:
  "newUint8Array (6 + int n) = [0, 0, 0, 0, 0] @ replicate n 0 @ [0]"
proof -
  have "nat (6 + int n) = Suc (Suc (Suc (Suc (Suc (n + 1)))))" by simp
  then show ?thesis
    unfolding newUint8Array_def by (simp add: replicate_append_same)
qed

lemma slice_middle:
  "b = int (length a) \<Longrightarrow> e = int (length a + length m) \<Longrightarrow> sliceArr (a @ m @ r) b e = m"
  by (simp add: sliceArr_def clampIndex_def Let_def)

lemma setAt_middle:
  "int (length a) = off \<Longrightarrow> length mid = length src \<Longrightarrow>
     setAt (a @ mid @ rest) src off = Some (a @ src @ rest)"
  by (auto simp: setAt_def)

lemma store_last:
  "i = int (length a) \<Longrightarrow> store (a @ [x]) i c = a @ [word_of_int c]"
  by (simp add: store_def)

lemma createPacket_eq:
  "createPacket ident instruction parameters =
     [0xFF, 0xFF] @
     [word_of_int ident, word_of_int (int (length parameters) + 2), word_of_int instruction] @
     parameters @
     [NOT (sum_list ([word_of_int ident, word_of_int (int (length parameters) + 2),
                      word_of_int instruction] @ parameters))]"
proof -
  define n where "n = length parameters"
  define h2 :: Uint8Array where "h2 = [0xFF, 0xFF]"
  define h3 :: Uint8Array where
    "h3 = [word_of_int ident, word_of_int (int n + 2), word_of_int instruction]"
  have l2: "length h2 = 2" and l3: "length h3 = 3" by (simp_all add: h2_def h3_def)
  have p4: "store (store (store (store (store (newUint8Array (6 + int n)) 0 (uint (HEADER ! 0)))
              1 (uint (HEADER ! 1))) 2 ident) 3 (int n + 2)) 4 instruction
            = (h2 @ h3) @ replicate n 0 @ [0]"
    by (simp add: newUint8Array_packet store_def HEADER_def h2_def h3_def)
  have "setAt ((h2 @ h3) @ replicate n 0 @ [0]) parameters 5 = Some ((h2 @ h3) @ parameters @ [0])"
    by (rule setAt_middle) (simp_all add: n_def l2 l3)
  then have p5: "(if int n > 0
             then (case setAt ((h2 @ h3) @ replicate n 0 @ [0]) parameters 5 of Some p \<Rightarrow> p
                   | None \<Rightarrow> (h2 @ h3) @ replicate n 0 @ [0])
             else (h2 @ h3) @ replicate n 0 @ [0]) = h2 @ (h3 @ parameters) @ [0]"
    by (simp add: n_def)
  have sl: "sliceArr (h2 @ (h3 @ parameters) @ [0]) 2 (6 + int n - 1) = h3 @ parameters"
    by (rule slice_middle) (simp_all add: l2 l3 n_def)
  have st: "store (h2 @ (h3 @ parameters) @ [0]) (6 + int n - 1) c
              = (h2 @ h3 @ parameters) @ [word_of_int c]" for c
  proof -
    have "store ((h2 @ h3 @ parameters) @ [0]) (6 + int n - 1) c
            = (h2 @ h3 @ parameters) @ [word_of_int c]"
      by (rule store_last) (simp add: l2 l3 n_def)
    then show ?thesis by simp
  qed
  show ?thesis
    unfolding createPacket_def Let_def MIN_PACKET_LENGTH_eq n_def[symmetric] p4 p5 sl st
    by (simp add: calculateChecksum_word h2_def h3_def n_def)
qed

lemma sliceArr_take_drop:
  "0 \<le> b \<Longrightarrow> b \<le> e \<Longrightarrow> e \<le> int (length xs) \<Longrightarrow>
     sliceArr xs b e = take (nat e - nat b) (drop (nat b) xs)"
  by (simp add: sliceArr_def clampIndex_def Let_def min_def)

lemma parsePacket_outcomes:
  "parsePacket data =
    (if length data < 6 \<or> data ! 0 \<noteq> 0xFF \<or> data ! 1 \<noteq> 0xFF
        \<or> length data < 4 + unat (data ! 3)
     then Inl (ServoError INVALID_RESPONSE [] None)
     else if data ! (3 + unat (data ! 3))
               \<noteq> NOT (sum_list (take (unat (data ! 3) + 1) (drop 2 data)))
     then Inl (ServoError CHECKSUM_ERROR [] (Some (uint (data ! 2))))
     else Inr \<lparr> pkt_id = uint (data ! 2), pkt_instruction = 0,
               pkt_parameters = take (unat (data ! 3) - 2) (drop 5 data),
               pkt_length = uint (data ! 3), pkt_error = uint (data ! 4),
               pkt_checksum = uint (data ! (3 + unat (data ! 3))) \<rparr>)"
proof -
  define len where "len = unat (data ! 3)"
  have ul: "uint (data ! 3) = int len" by (simp add: len_def)
  have epl: "HEADER_LENGTH + ID_LENGTH + LENGTH_LENGTH + int len = 4 + int len"
    by (simp add: HEADER_LENGTH_def ID_LENGTH_def LENGTH_LENGTH_def)
  have idx: "nat (4 + int len - 1) = 3 + len" by simp
  have cs: "sliceArr data 2 (4 + int len - 1) = take (len + 1) (drop 2 data)"
    if "4 + len \<le> length data"
    using that by (subst sliceArr_take_drop) (auto simp: nat_add_distrib)
  have ps: "(if int len - 2 > 0 then sliceArr data 5 (5 + (int len - 2)) else [])
              = take (len - 2) (drop 5 data)"
    if "4 + len \<le> length data"
  proof (cases "int len - 2 > 0")
    case True
    then have "sliceArr data 5 (5 + (int len - 2)) = take (nat (5 + (int len - 2)) - nat 5) (drop (nat 5) data)"
      using that by (intro sliceArr_take_drop) auto
    moreover have "nat (5 + (int len - 2)) - nat 5 = len - 2" using True by auto
    ultimately show ?thesis using True by simp
  next
    case False
    then show ?thesis by simp
  qed
  show ?thesis
  proof (cases "length data < 6 \<or> data ! 0 \<noteq> 0xFF \<or> data ! 1 \<noteq> 0xFF \<or> length data < 4 + len")
    case True
    then show ?thesis
      unfolding parsePacket_def Let_def MIN_PACKET_LENGTH_eq ul epl len_def[symmetric]
      by (auto simp: HEADER_def)
  next
    case False
    then have le: "4 + len \<le> length data" by simp
    from False show ?thesis
      unfolding parsePacket_def Let_def MIN_PACKET_LENGTH_eq ul epl len_def[symmetric] idx
        cs[OF le] ps[OF le] calculateChecksum_word
      by (auto simp: HEADER_def dest: word_uint_eqI)
  qed
qed

lemma unat_length_byte:
  assumes "n \<le> 253"
  shows "unat (word_of_int (int n + 2) :: byte) = n + 2"
proof -
  have "(word_of_int (int n + 2) :: byte) = word_of_nat (n + 2)" by simp
  moreover have "unat (word_of_nat (n + 2) :: byte) = (n + 2) mod 2 ^ LENGTH(8)"
    by (rule unat_of_nat)
  moreover have "(n + 2) mod 2 ^ LENGTH(8) = n + 2" using assms by simp
  ultimately show ?thesis by (simp only:)
qed

lemma parse_create:
  assumes "length ps \<le> 253"
  shows "parsePacket (createPacket ident instruction ps) =
     Inr \<lparr> pkt_id = uint (word_of_int ident :: byte), pkt_instruction = 0,
           pkt_parameters = ps, pkt_length = int (length ps) + 2,
           pkt_error = uint (word_of_int instruction :: byte),
           pkt_checksum = uint (NOT (sum_list ([word_of_int ident,
               word_of_int (int (length ps) + 2), word_of_int instruction] @ ps))) \<rparr>"
proof -
  define n where "n = length ps"
  define h3 :: Uint8Array where
    "h3 = [word_of_int ident, word_of_int (int n + 2), word_of_int instruction]"
  define chk :: byte where "chk = NOT (sum_list (h3 @ ps))"
  define data where "data = [0xFF, 0xFF] @ h3 @ ps @ [chk]"
  have cp: "createPacket ident instruction ps = data"
    by (simp add: createPacket_eq data_def h3_def chk_def n_def)
  have l3: "length h3 = 3" by (simp add: h3_def)
  have len: "length data = 6 + n" by (simp add: data_def l3 n_def)
  have d0: "data ! 0 = 0xFF" "data ! 1 = 0xFF" by (simp_all add: data_def)
  have d2: "data ! 2 = word_of_int ident" "data ! 4 = word_of_int instruction"
    by (simp_all add: data_def h3_def)
  have d3: "data ! 3 = word_of_int (int n + 2)" by (simp add: data_def h3_def)
  have u3: "unat (data ! 3) = n + 2"
    unfolding d3 using assms by (intro unat_length_byte) (simp add: n_def)
  have dl: "data ! (3 + (n + 2)) = chk"
  proof -
    have "data = ([0xFF, 0xFF] @ h3 @ ps) @ [chk]" by (simp add: data_def)
    moreover have "3 + (n + 2) = length ([0xFF, 0xFF] @ h3 @ ps)" by (simp add: l3 n_def)
    ultimately show ?thesis by (metis nth_append_length)
  qed
  have tk: "take (n + 2 + 1) (drop 2 data) = h3 @ ps"
  proof -
    have "drop 2 data = (h3 @ ps) @ [chk]" by (simp add: data_def)
    moreover have "n + 2 + 1 = length (h3 @ ps)" by (simp add: l3 n_def)
    ultimately show ?thesis by (metis append_eq_conv_conj)
  qed
  have pr: "take (n + 2 - 2) (drop 5 data) = ps"
  proof -
    have "drop 5 data = ps @ [chk]" by (simp add: data_def h3_def)
    then show ?thesis by (simp add: n_def)
  qed
  have ui: "uint (data ! 3) = int n + 2"
    using u3 by (metis of_nat_add of_nat_numeral uint_nat)
  have c1: "\<not> (length data < 6 \<or> data ! 0 \<noteq> 0xFF \<or> data ! 1 \<noteq> 0xFF
                \<or> length data < 4 + unat (data ! 3))"
    using d0 by (simp add: len u3)
  have c2: "\<not> data ! (3 + unat (data ! 3))
               \<noteq> NOT (sum_list (take (unat (data ! 3) + 1) (drop 2 data)))"
    by (simp only: u3 dl tk chk_def not_not)
  have "parsePacket data =
          Inr \<lparr> pkt_id = uint (data ! 2), pkt_instruction = 0,
               pkt_parameters = take (unat (data ! 3) - 2) (drop 5 data),
               pkt_length = uint (data ! 3), pkt_error = uint (data ! 4),
               pkt_checksum = uint (data ! (3 + unat (data ! 3))) \<rparr>"
    by (subst parsePacket_outcomes) (simp only: c1 c2 if_False)
  also have "\<dots> = Inr \<lparr> pkt_id = uint (word_of_int ident :: byte), pkt_instruction = 0,
           pkt_parameters = ps, pkt_length = int n + 2,
           pkt_error = uint (word_of_int instruction :: byte),
           pkt_checksum = uint chk \<rparr>"
    by (simp only: u3 dl pr d2 ui)
  finally show ?thesis
    unfolding cp chk_def h3_def n_def .
qed

lemmas ErrorBit_defs = VOLTAGE_def ANGLE_def OVERHEAT_def RANGE_def CHECKSUM_def OVERLOAD_def
  INSTRUCTION_def

lemma low7_bits: "(0x7F::int) = 1 OR 2 OR 4 OR 8 OR 16 OR 32 OR 64" by simp

lemma low7_split:
  "(e::int) AND 0x7F = 0 \<longleftrightarrow>
     e AND 1 = 0 \<and> e AND 2 = 0 \<and> e AND 4 = 0 \<and> e AND 8 = 0 \<and> e AND 16 = 0
       \<and> e AND 32 = 0 \<and> e AND 64 = 0"
proof -
  have "e AND 0x7F = (e AND 1) OR (e AND 2) OR (e AND 4) OR (e AND 8) OR (e AND 16)
      OR (e AND 32) OR (e AND 64)"
    by (simp only: low7_bits bit.conj_disj_distrib)
  then show ?thesis by (simp only: or_eq_0_iff)
qed

lemma snoc_if: "(if c then xs @ [x] else xs) = xs @ (if c then [x] else [])"
  by simp

lemma setConditions_unfold:
  "setConditions e =
     (if e AND 1 \<noteq> 0 then [''Input voltage error''] else []) @
     (if e AND 2 \<noteq> 0 then [''Angle limit error''] else []) @
     (if e AND 4 \<noteq> 0 then [''Overheat error''] else []) @
     (if e AND 8 \<noteq> 0 then [''Out of range error''] else []) @
     (if e AND 16 \<noteq> 0 then [''Checksum error''] else []) @
     (if e AND 32 \<noteq> 0 then [''Overload error''] else []) @
     (if e AND 64 \<noteq> 0 then [''Invalid instruction error''] else [])"
  unfolding setConditions_def ERROR_CONDITIONS_def ErrorBit_defs by simp

lemma setConditions_empty: "setConditions e = [] \<longleftrightarrow> e AND 0x7F = 0"
  unfolding setConditions_def ERROR_CONDITIONS_def ErrorBit_defs low7_split
  by (simp add: filter_empty_conv)

lemma setConditions_names:
  "\<forall>(mask, name) \<in> set ERROR_CONDITIONS.
     name \<in> set (setConditions e) \<longleftrightarrow> e AND mask \<noteq> 0"
  unfolding setConditions_unfold unfolding ERROR_CONDITIONS_def ErrorBit_defs
  by simp

lemma checkError_conditions:
  "checkError packet =
     (if pkt_error packet AND 0x7F = 0 then Inr ()
      else Inl (ServoError HARDWARE_ERROR (setConditions (pkt_error packet))
                  (Some (pkt_id packet))))"
proof -
  have "checkError packet =
     (if pkt_error packet = 0 then Inr ()
      else if length (setConditions (pkt_error packet)) > 0
           then Inl (ServoError HARDWARE_ERROR (setConditions (pkt_error packet))
                  (Some (pkt_id packet)))
           else Inr ())"
    unfolding checkError_def ErrorBit_defs setConditions_unfold
    by (simp only: snoc_if) (simp only: Let_def append_Nil append_assoc)
  also have "\<dots> = (if pkt_error packet AND 0x7F = 0 then Inr ()
      else Inl (ServoError HARDWARE_ERROR (setConditions (pkt_error packet))
                  (Some (pkt_id packet))))"
    using setConditions_empty[of "pkt_error packet"] by auto
  finally show ?thesis .
qed

lemma and_255: "(k::int) AND 0xFF = take_bit 8 k"
proof -
  have "(0xFF::int) = mask 8" by (simp add: mask_eq_exp_minus_1)
  then show ?thesis by (simp only: take_bit_eq_mask)
qed

lemma join_bytes: "push_bit 8 (take_bit 8 (drop_bit 8 (v::int))) OR take_bit 8 v = take_bit 16 v"
proof (rule bit_eqI)
  fix n
  show "bit (push_bit 8 (take_bit 8 (drop_bit 8 v)) OR take_bit 8 v) n = bit (take_bit 16 v) n"
  proof (cases "n < 8")
    case True
    then show ?thesis by (simp add: bit_simps)
  next
    case False
    then obtain m where "n = m + 8" by (metis le_add_diff_inverse2 not_less)
    then show ?thesis by (auto simp add: bit_simps add.commute)
  qed
qed

lemma makeWord_bytes: "makeWord (getLowByte v) (getHighByte v) = v mod 65536"
proof -
  have "v mod 65536 = take_bit 16 v" by (simp add: take_bit_eq_mod)
  then show ?thesis
    unfolding makeWord_def getLowByte_def getHighByte_def and_255 join_bytes by simp
qed

lemma byte_of_low: "uint (word_of_int (getLowByte v) :: byte) = getLowByte v"
  unfolding getLowByte_def and_255 by (simp add: uint_word_of_int_eq)

lemma byte_of_high: "uint (word_of_int (getHighByte v) :: byte) = getHighByte v"
  unfolding getHighByte_def and_255 by (simp add: uint_word_of_int_eq)

section \<open>Packet codec: properties\<close>

text \<open>
  C1 (as amended). For every id byte, instruction byte and list of at most 253 parameter
  bytes, \<open>parsePacket\<close> accepts the packet that \<open>createPacket\<close> builds, and the result has
  the given id, the length field \<open>parameterCount + 2\<close> and the original parameters (the
  instruction byte comes back as the error field). The bound is needed: the length
  field is one byte.
\<close>

theorem roundtrip_createPacket_parsePacket:
  fixes ident instruction :: byte
  assumes "length parameters \<le> 253"
  shows "parsePacket (createPacket (uint ident) (uint instruction) parameters) =
     Inr \<lparr> pkt_id = uint ident, pkt_instruction = 0, pkt_parameters = parameters,
           pkt_length = int (length parameters) + 2, pkt_error = uint instruction,
           pkt_checksum = uint (NOT (sum_list ([ident, word_of_int (int (length parameters) + 2),
               instruction] @ parameters))) \<rparr>"
  using parse_create[OF assms, of "uint ident" "uint instruction"] by simp

text \<open>The round trip at id 5, instruction READ, parameters \<open>[56, 2]\<close>.\<close>

theorem roundtrip_createPacket_parsePacket_witness:
  "length [56, 2 :: byte] \<le> 253 \<and>
   parsePacket (createPacket 5 2 [56, 2]) =
     Inr \<lparr> pkt_id = 5, pkt_instruction = 0, pkt_parameters = [56, 2], pkt_length = 4,
           pkt_error = 2, pkt_checksum = 0xBA \<rparr>"
  using roundtrip_createPacket_parsePacket[of "[56, 2]" 5 2] by simp

text \<open>
  With 254 parameter bytes the length byte wraps to 0 and parsing the built packet ends
  in a checksum error, so C1 does not hold for every list of parameter bytes.
\<close>

theorem roundtrip_fails_254_parameters:
  "parsePacket (createPacket 1 2 (replicate 254 0)) = Inl (ServoError CHECKSUM_ERROR [] (Some 1))"
  by code_simp

text \<open>
  C2 (as amended). \<open>parsePacket\<close> fails with \<open>INVALID_RESPONSE\<close> when fewer than 6 bytes
  are present, when the two header bytes are not \<open>FF FF\<close>, or when fewer than
  \<open>4 + length field\<close> bytes are present (bytes after the frame are accepted and
  ignored). Otherwise it fails with \<open>CHECKSUM_ERROR\<close>, carrying the frame's device id,
  when the byte at the checksum position differs from the bitwise NOT of the 8-bit sum of
  the bytes from the id up to that position, and succeeds when they agree.
\<close>

theorem parsePacket_failure_conditions:
  "(length data < 6 \<longrightarrow> parsePacket data = Inl (ServoError INVALID_RESPONSE [] None)) \<and>
   (6 \<le> length data \<and> (data ! 0 \<noteq> 0xFF \<or> data ! 1 \<noteq> 0xFF) \<longrightarrow>
      parsePacket data = Inl (ServoError INVALID_RESPONSE [] None)) \<and>
   (6 \<le> length data \<and> length data < 4 + unat (data ! 3) \<longrightarrow>
      parsePacket data = Inl (ServoError INVALID_RESPONSE [] None)) \<and>
   (6 \<le> length data \<and> data ! 0 = 0xFF \<and> data ! 1 = 0xFF
      \<and> 4 + unat (data ! 3) \<le> length data \<longrightarrow>
      parsePacket data =
        (if data ! (3 + unat (data ! 3))
              \<noteq> NOT (sum_list (take (unat (data ! 3) + 1) (drop 2 data)))
         then Inl (ServoError CHECKSUM_ERROR [] (Some (uint (data ! 2))))
         else Inr \<lparr> pkt_id = uint (data ! 2), pkt_instruction = 0,
                   pkt_parameters = take (unat (data ! 3) - 2) (drop 5 data),
                   pkt_length = uint (data ! 3), pkt_error = uint (data ! 4),
                   pkt_checksum = uint (data ! (3 + unat (data ! 3))) \<rparr>))"
  by (subst (1 2 3 4) parsePacket_outcomes) simp

text \<open>One input for each of the outcomes.\<close>

theorem parsePacket_failure_conditions_witness:
  "parsePacket [0xFF, 0xFF, 0x05] = Inl (ServoError INVALID_RESPONSE [] None) \<and>
   parsePacket [0xFF, 0x00, 0x05, 0x02, 0x00, 0xF8] = Inl (ServoError INVALID_RESPONSE [] None) \<and>
   parsePacket [0xFF, 0xFF, 0x05, 0x04, 0x00, 0xF6] = Inl (ServoError INVALID_RESPONSE [] None) \<and>
   parsePacket [0xFF, 0xFF, 0x05, 0x02, 0x00, 0x00] = Inl (ServoError CHECKSUM_ERROR [] (Some 5)) \<and>
   parsePacket [0xFF, 0xFF, 0x05, 0x04, 0x00, 0x11, 0x22, 0xC3] =
     Inr \<lparr> pkt_id = 5, pkt_instruction = 0, pkt_parameters = [0x11, 0x22], pkt_length = 4,
           pkt_error = 0, pkt_checksum = 0xC3 \<rparr>"
  using parsePacket_failure_conditions[of "[0xFF, 0xFF, 0x05]"]
    parsePacket_failure_conditions[of "[0xFF, 0x00, 0x05, 0x02, 0x00, 0xF8]"]
    parsePacket_failure_conditions[of "[0xFF, 0xFF, 0x05, 0x04, 0x00, 0xF6]"]
    parsePacket_failure_conditions[of "[0xFF, 0xFF, 0x05, 0x02, 0x00, 0x00]"]
    parsePacket_failure_conditions[of "[0xFF, 0xFF, 0x05, 0x04, 0x00, 0x11, 0x22, 0xC3]"]
  by simp

text \<open>
  A length field that declares 6 bytes where 7 are available: the two disagree, and the
  packet is accepted all the same.
\<close>

theorem parsePacket_accepts_trailing_bytes:
  "parsePacket [0xFF, 0xFF, 0x05, 0x02, 0x00, 0xF8, 0x00] =
     Inr \<lparr> pkt_id = 5, pkt_instruction = 0, pkt_parameters = [], pkt_length = 2,
           pkt_error = 0, pkt_checksum = 0xF8 \<rparr>"
  by code_simp

text \<open>
  C3 (as amended). \<open>checkError\<close> succeeds on error byte 0. On every error byte with one of
  the seven condition bits \<open>0x01\<close> to \<open>0x40\<close> set it raises \<open>HARDWARE_ERROR\<close> with the
  responding device's id, naming exactly the conditions whose bits are set (a condition
  is among the names if and only if its bit is set). When none of the seven bits is set
  it succeeds, also on a non-zero byte.
\<close>

theorem checkError_error_bits:
  "(pkt_error packet = 0 \<longrightarrow> checkError packet = Inr ()) \<and>
   (pkt_error packet AND 0x7F \<noteq> 0 \<longrightarrow>
      checkError packet =
        Inl (ServoError HARDWARE_ERROR (setConditions (pkt_error packet)) (Some (pkt_id packet)))) \<and>
   (pkt_error packet AND 0x7F = 0 \<longrightarrow> checkError packet = Inr ()) \<and>
   (\<forall>(mask, name) \<in> set ERROR_CONDITIONS.
      name \<in> set (setConditions (pkt_error packet)) \<longleftrightarrow> pkt_error packet AND mask \<noteq> 0)"
  using setConditions_names[of "pkt_error packet"] by (simp add: checkError_conditions)

text \<open>Error bytes \<open>0x00\<close>, \<open>0x24\<close> (overheat and overload) and \<open>0x80\<close>.\<close>

theorem checkError_error_bits_witness:
  "checkError \<lparr> pkt_id = 3, pkt_instruction = 0, pkt_parameters = [], pkt_length = 2,
                pkt_error = 0, pkt_checksum = 0xFA \<rparr> = Inr () \<and>
   checkError \<lparr> pkt_id = 3, pkt_instruction = 0, pkt_parameters = [], pkt_length = 2,
                pkt_error = 0x24, pkt_checksum = 0xD6 \<rparr> =
     Inl (ServoError HARDWARE_ERROR [''Overheat error'', ''Overload error''] (Some 3)) \<and>
   checkError \<lparr> pkt_id = 3, pkt_instruction = 0, pkt_parameters = [], pkt_length = 2,
                pkt_error = 0x80, pkt_checksum = 0x7A \<rparr> = Inr ()"
  using checkError_error_bits[of "\<lparr> pkt_id = 3, pkt_instruction = 0, pkt_parameters = [],
      pkt_length = 2, pkt_error = 0, pkt_checksum = 0xFA \<rparr>"]
    checkError_error_bits[of "\<lparr> pkt_id = 3, pkt_instruction = 0, pkt_parameters = [],
      pkt_length = 2, pkt_error = 0x24, pkt_checksum = 0xD6 \<rparr>"]
    checkError_error_bits[of "\<lparr> pkt_id = 3, pkt_instruction = 0, pkt_parameters = [],
      pkt_length = 2, pkt_error = 0x80, pkt_checksum = 0x7A \<rparr>"]
  by (simp add: setConditions_unfold)

text \<open>The error byte \<open>0x80\<close> is not zero, and \<open>checkError\<close> raises nothing.\<close>

theorem checkError_ignores_bit7:
  "checkError \<lparr> pkt_id = 1, pkt_instruction = 0, pkt_parameters = [], pkt_length = 2,
                pkt_error = 0x80, pkt_checksum = 0x7C \<rparr> = Inr ()"
  by code_simp

text \<open>
  C7 (as amended). A PING to device 5 is encoded as \<open>FF FF 05 02 01 F7\<close>, and the
  response \<open>FF FF 05 02 00 F8\<close> decodes to id 5, length 2, error 0 and no parameters.
\<close>

theorem ping_scenario:
  "createPingPacket 5 = [0xFF, 0xFF, 0x05, 0x02, 0x01, 0xF7] \<and>
   parsePacket [0xFF, 0xFF, 0x05, 0x02, 0x00, 0xF8] =
     Inr \<lparr> pkt_id = 5, pkt_instruction = 0, pkt_parameters = [], pkt_length = 2,
           pkt_error = 0, pkt_checksum = 0xF8 \<rparr>"
  by code_simp

text \<open>The same scenario, read off the decoded frame field by field.\<close>

theorem ping_scenario_witness:
  "length (createPingPacket 5) = 6 \<and>
   (case parsePacket [0xFF, 0xFF, 0x05, 0x02, 0x00, 0xF8] of
      Inl e \<Rightarrow> False
    | Inr r \<Rightarrow> pkt_id r = 5 \<and> pkt_length r = 2 \<and> pkt_error r = 0 \<and> pkt_parameters r = [])"
  using ping_scenario by simp

text \<open>
  The response bytes \<open>FF FF 05 02 00 F9\<close> do not decode: the checksum of \<open>05 02 00\<close> is
  \<open>F8\<close>.
\<close>

theorem ping_response_F9_rejected:
  "parsePacket [0xFF, 0xFF, 0x05, 0x02, 0x00, 0xF9] = Inl (ServoError CHECKSUM_ERROR [] (Some 5))"
  by code_simp

section \<open>Group write: auxiliary facts\<close>

lemma encodeEntries_Nil: "encodeEntries [] = []"
  by (simp add: encodeEntries_def)

lemma encodeEntries_Cons:
  "encodeEntries (item # items) = (word_of_int (fst item) # snd item) @ encodeEntries items"
  by (cases item) (simp add: encodeEntries_def)

lemma totalDataLength_eq:
  "fold (\<lambda>item total. total + (1 + int (length (snd item)))) items t
     = t + int (length (encodeEntries items))"
  by (induction items arbitrary: t) (simp_all add: encodeEntries_Nil encodeEntries_Cons)

lemma store_at_end:
  "offset = int (length pre) \<Longrightarrow> store (pre @ x # rest) offset v = pre @ word_of_int v # rest"
  by (simp add: store_def)

lemma setAt_at_end:
  "offset = int (length pre) \<Longrightarrow>
     setAt (pre @ replicate (length src + m) 0) src offset = Some (pre @ src @ replicate m 0)"
  by (simp add: setAt_def replicate_add)

lemma putItem_step:
  assumes "offset = int (length pre)"
  shows "putItem item (pre @ replicate (length (encodeEntries (item # items)) + m) 0, offset)
           = ((pre @ word_of_int (fst item) # snd item)
                @ replicate (length (encodeEntries items) + m) 0,
              int (length (pre @ word_of_int (fst item) # snd item)))"
proof -
  define k where "k = length (encodeEntries items) + m"
  have rep: "replicate (length (encodeEntries (item # items)) + m) (0::byte)
               = 0 # replicate (length (snd item) + k) 0"
    by (simp add: encodeEntries_Cons k_def)
  have st: "store (pre @ 0 # replicate (length (snd item) + k) 0) offset (fst item)
              = (pre @ [word_of_int (fst item)]) @ replicate (length (snd item) + k) 0"
    using assms by (simp add: store_at_end)
  have sa: "setAt ((pre @ [word_of_int (fst item)]) @ replicate (length (snd item) + k) 0)
              (snd item) (offset + 1)
              = Some ((pre @ [word_of_int (fst item)]) @ snd item @ replicate k 0)"
    by (rule setAt_at_end) (use assms in simp)
  show ?thesis
    unfolding putItem_def prod.case Let_def rep st sa option.case
    using assms by (simp add: k_def)
qed

lemma fill_loop:
  "offset = int (length pre) \<Longrightarrow>
   fold putItem items (pre @ replicate (length (encodeEntries items) + m) 0, offset)
     = (pre @ encodeEntries items @ replicate m 0,
        offset + int (length (encodeEntries items)))"
proof (induction items arbitrary: pre offset)
  case Nil
  then show ?case by (simp add: encodeEntries_Nil)
next
  case (Cons item items)
  have "fold putItem (item # items)
          (pre @ replicate (length (encodeEntries (item # items)) + m) 0, offset)
        = fold putItem items
            ((pre @ word_of_int (fst item) # snd item)
                @ replicate (length (encodeEntries items) + m) 0,
              int (length (pre @ word_of_int (fst item) # snd item)))"
    by (simp only: fold_Cons comp_apply putItem_step[OF Cons.prems])
  also have "\<dots> = ((pre @ word_of_int (fst item) # snd item) @ encodeEntries items
                      @ replicate m 0,
                    int (length (pre @ word_of_int (fst item) # snd item))
                      + int (length (encodeEntries items)))"
    by (rule Cons.IH) simp
  also have "\<dots> = (pre @ encodeEntries (item # items) @ replicate m 0,
        offset + int (length (encodeEntries (item # items))))"
    using Cons.prems by (simp add: encodeEntries_Cons)
  finally show ?case .
qed

lemma createSyncWritePacket_eq:
  "createSyncWritePacket address len items =
     createPacket BROADCAST_ID SYNC_WRITE
       ([word_of_int address, word_of_int len] @ encodeEntries items)"
proof -
  define n where "n = length (encodeEntries items)"
  have tot: "fold (\<lambda>item total. total + (1 + int (length (snd item)))) items 0 = int n"
    by (simp add: totalDataLength_eq n_def)
  have p0: "store (store (newUint8Array (2 + int n)) 0 address) 1 len
              = [word_of_int address, word_of_int len] @ replicate (n + 0) 0"
  proof -
    have "nat (2 + int n) = Suc (Suc n)" by simp
    then show ?thesis by (simp add: newUint8Array_def store_def)
  qed
  have fl: "fold putItem items ([word_of_int address, word_of_int len] @ replicate (n + 0) 0, 2)
              = ([word_of_int address, word_of_int len] @ encodeEntries items @ replicate 0 0,
                 2 + int (length (encodeEntries items)))"
    unfolding n_def by (rule fill_loop) simp
  show ?thesis
    unfolding createSyncWritePacket_def Let_def tot p0 fl prod.case by simp
qed

lemma items_loop: "fold (\<lambda>(ident, data) items. items @ [(ident, data)]) m acc = acc @ m"
  by (induction m arbitrary: acc) auto

lemma txPacket_nonempty:
  assumes "gsw_dataMap g \<noteq> []"
  shows "txPacket g =
     (if isOpen (gsw_port g)
      then (Inr (),
            g\<lparr>gsw_port := (gsw_port g)\<lparr>readBuffer := [],
                 written := written (gsw_port g) @
                   [createPacket BROADCAST_ID SYNC_WRITE
                     ([word_of_int (gsw_address g), word_of_int (gsw_dataLength g)]
                        @ encodeEntries (gsw_dataMap g))]\<rparr>\<rparr>)
      else (Inl (ServoError CONNECTION_LOST [] None),
            g\<lparr>gsw_port := (gsw_port g)\<lparr>readBuffer := []\<rparr>\<rparr>))"
  using assms
  by (simp add: txPacket_def items_loop createSyncWritePacket_eq writePort_def flush_def)

lemma mapSet_tabulate:
  "distinct ks \<Longrightarrow>
   mapSet (map (\<lambda>k. (k, f k)) ks) i d
     = map (\<lambda>k. (k, (f(i := d)) k)) (if i \<in> set ks then ks else ks @ [i])"
  by (induction ks) auto

lemma firstAdded_snoc:
  "firstAdded (xs @ [i]) = (if i \<in> set xs then firstAdded xs else firstAdded xs @ [i])"
  by (simp add: firstAdded_def)

lemma set_firstAdded: "set (firstAdded xs) = set xs"
  by (simp add: firstAdded_def)

lemma distinct_firstAdded: "distinct (firstAdded xs)"
  by (simp add: firstAdded_def)

lemma lastValue_snoc: "lastValue (entries @ [(i, d)]) = (lastValue entries)(i := d)"
  by (rule ext) (simp add: lastValue_def)

lemma mapSet_entries:
  "fold (\<lambda>(i, d) m. mapSet m i d) entries []
     = map (\<lambda>i. (i, lastValue entries i)) (firstAdded (map fst entries))"
proof (induction entries rule: rev_induct)
  case Nil
  then show ?case by (simp add: firstAdded_def)
next
  case (snoc e entries)
  obtain i d where e: "e = (i, d)" by (cases e)
  have "fold (\<lambda>(i, d) m. mapSet m i d) (entries @ [e]) []
          = mapSet (map (\<lambda>i. (i, lastValue entries i)) (firstAdded (map fst entries))) i d"
    by (simp add: snoc.IH e)
  also have "\<dots> = map (\<lambda>k. (k, ((lastValue entries)(i := d)) k))
                      (if i \<in> set (firstAdded (map fst entries))
                       then firstAdded (map fst entries)
                       else firstAdded (map fst entries) @ [i])"
    by (rule mapSet_tabulate) (rule distinct_firstAdded)
  also have "\<dots> = map (\<lambda>k. (k, lastValue (entries @ [e]) k))
                      (firstAdded (map fst (entries @ [e])))"
    by (simp only: e lastValue_snoc map_append list.map fst_conv firstAdded_snoc
          set_firstAdded)
  finally show ?case .
qed

lemma addParams_fold:
  assumes "\<forall>(i, d) \<in> set entries. int (length d) = gsw_dataLength g"
  shows "addParams entries g
           = g\<lparr>gsw_dataMap := fold (\<lambda>(i, d) m. mapSet m i d) entries (gsw_dataMap g)\<rparr>"
  using assms
proof (induction entries arbitrary: g)
  case Nil
  then show ?case by (simp add: addParams_def)
next
  case (Cons e entries)
  obtain i d where e: "e = (i, d)" by (cases e)
  have w: "int (length d) = gsw_dataLength g" using Cons.prems e by simp
  have "addParams (e # entries) g
          = addParams entries (g\<lparr>gsw_dataMap := mapSet (gsw_dataMap g) i d\<rparr>)"
    by (simp add: addParams_def e gsw_addParam_def w)
  also have "\<dots> = g\<lparr>gsw_dataMap := mapSet (gsw_dataMap g) i d\<rparr>
      \<lparr>gsw_dataMap := fold (\<lambda>(i, d) m. mapSet m i d) entries
          (gsw_dataMap (g\<lparr>gsw_dataMap := mapSet (gsw_dataMap g) i d\<rparr>))\<rparr>"
    by (rule Cons.IH) (use Cons.prems in simp)
  finally show ?case by (simp add: e)
qed

lemma addParams_dataMap:
  assumes "gsw_dataMap g = []" "\<forall>(i, d) \<in> set entries. int (length d) = gsw_dataLength g"
  shows "addParams entries g
           = g\<lparr>gsw_dataMap := map (\<lambda>i. (i, lastValue entries i)) (firstAdded (map fst entries))\<rparr>"
  by (simp only: addParams_fold[OF assms(2)] assms(1) mapSet_entries)

section \<open>Group write: properties\<close>

text \<open>
  C6. With an open port, after entries of the configured width have been added to an
  empty batch (at least one), \<open>txPacket\<close> succeeds and hands exactly one packet to the
  port: \<open>FF FF FE len 83\<close>, the parameters, the checksum. The parameters are the register
  address and the width, then one \<open>(id, value bytes)\<close> tuple per id in the order in which
  the ids were first added, each with the value added last for it. Apart from that
  packet the port is only flushed: nothing is waited for and nothing is read.
\<close>

theorem txPacket_layout:
  assumes "isOpen (gsw_port g)" "gsw_dataMap g = []" "entries \<noteq> []"
    and "\<forall>(i, d) \<in> set entries. int (length d) = gsw_dataLength g"
  defines "params \<equiv> [word_of_int (gsw_address g), word_of_int (gsw_dataLength g)] @
             concat (map (\<lambda>i. word_of_int i # lastValue entries i) (firstAdded (map fst entries)))"
  shows "txPacket (addParams entries g) =
     (Inr (),
      (addParams entries g)
        \<lparr>gsw_port := (gsw_port g)
           \<lparr>readBuffer := [],
            written := written (gsw_port g) @
              [[0xFF, 0xFF, 0xFE, word_of_int (int (length params) + 2), 0x83] @ params @
               [NOT (sum_list ([0xFE, word_of_int (int (length params) + 2), 0x83] @ params))]]\<rparr>\<rparr>)"
proof -
  define g' where "g' = addParams entries g"
  have g': "g' = g\<lparr>gsw_dataMap := map (\<lambda>i. (i, lastValue entries i)) (firstAdded (map fst entries))\<rparr>"
    unfolding g'_def by (rule addParams_dataMap[OF assms(2) assms(4)])
  have "firstAdded (map fst entries) \<noteq> []"
    using assms(3) set_firstAdded[of "map fst entries"] by (cases entries) auto
  then have ne: "gsw_dataMap g' \<noteq> []" by (simp add: g')
  have enc: "encodeEntries (gsw_dataMap g')
               = concat (map (\<lambda>i. word_of_int i # lastValue entries i) (firstAdded (map fst entries)))"
    by (simp add: g' encodeEntries_def comp_def)
  have same: "gsw_port g' = gsw_port g" "gsw_address g' = gsw_address g"
    "gsw_dataLength g' = gsw_dataLength g" by (simp_all add: g')
  show ?thesis
    unfolding g'_def[symmetric] txPacket_nonempty[OF ne] same enc createPacket_eq
    using assms(1) by (simp add: params_def BROADCAST_ID_def SYNC_WRITE_def)
qed

text \<open>
  Ids 1, 2, 3 at width 2 for register 42, id 1 added a second time with another value.
\<close>

theorem txPacket_layout_witness:
  "(let (r, g) = txPacket (addParams [(1, [0x00, 0x02]), (2, [0x00, 0x03]), (3, [0x10, 0x04]),
                                      (1, [0x34, 0x08])] exampleWrite)
    in r = Inr () \<and>
       written (gsw_port g) =
         [[0xFF, 0xFF, 0xFE, 0x0D, 0x83, 0x2A, 0x02, 0x01, 0x34, 0x08, 0x02, 0x00, 0x03,
           0x03, 0x10, 0x04, 0xEC]] \<and>
       readBuffer (gsw_port g) = [] \<and> arrivals (gsw_port g) = [])"
  using txPacket_layout[of exampleWrite
      "[(1, [0x00, 0x02]), (2, [0x00, 0x03]), (3, [0x10, 0x04]), (1, [0x34, 0x08])]"]
  by (simp add: exampleWrite_def examplePort_def firstAdded_def lastValue_def)

text \<open>
  C9. \<open>addParam\<close> raises \<open>INVALID_PARAMETER\<close> exactly when the data's length differs
  from the configured width, and then leaves the batch as it was; otherwise it stores the
  data under the id. \<open>txPacket\<close> raises \<open>INVALID_PARAMETER\<close> exactly when the entry map
  is empty, and then leaves the batch and its port as they were, so nothing is
  transmitted; with entries its only failure is a closed port.
\<close>

theorem group_write_misuse:
  "(int (length data) \<noteq> gsw_dataLength g \<longrightarrow>
      gsw_addParam ident data g = (Inl (ServoError INVALID_PARAMETER [] (Some ident)), g)) \<and>
   (int (length data) = gsw_dataLength g \<longrightarrow>
      gsw_addParam ident data g = (Inr (), g\<lparr>gsw_dataMap := mapSet (gsw_dataMap g) ident data\<rparr>)
      \<and> mapGet (mapSet (gsw_dataMap g) ident data) ident = Some data) \<and>
   (gsw_dataMap g = [] \<longrightarrow> txPacket g = (Inl (ServoError INVALID_PARAMETER [] None), g)) \<and>
   (gsw_dataMap g \<noteq> [] \<longrightarrow>
      fst (txPacket g) =
        (if isOpen (gsw_port g) then Inr () else Inl (ServoError CONNECTION_LOST [] None)))"
proof -
  have "mapGet (mapSet m ident data) ident = Some data" for m :: "(int \<times> Uint8Array) list"
    by (induction m) (auto simp: mapGet_def)
  moreover have "gsw_dataMap g \<noteq> [] \<Longrightarrow>
      fst (txPacket g) =
        (if isOpen (gsw_port g) then Inr () else Inl (ServoError CONNECTION_LOST [] None))"
    by (simp add: txPacket_nonempty)
  ultimately show ?thesis
    by (simp add: gsw_addParam_def txPacket_def)
qed

text \<open>A value of the wrong width, one of the right width, an empty and a filled batch.\<close>

theorem group_write_misuse_witness:
  "gsw_addParam 1 [0x01] exampleWrite = (Inl (ServoError INVALID_PARAMETER [] (Some 1)), exampleWrite) \<and>
   gsw_addParam 1 [0x00, 0x02] exampleWrite = (Inr (), exampleWrite\<lparr>gsw_dataMap := [(1, [0x00, 0x02])]\<rparr>) \<and>
   txPacket exampleWrite = (Inl (ServoError INVALID_PARAMETER [] None), exampleWrite) \<and>
   fst (txPacket (exampleWrite\<lparr>gsw_dataMap := [(1, [0x00, 0x02])]\<rparr>)) = Inr ()"
  using group_write_misuse[of "[0x01]" exampleWrite 1]
    group_write_misuse[of "[0x00, 0x02]" exampleWrite 1]
    group_write_misuse[of "[]" "exampleWrite\<lparr>gsw_dataMap := [(1, [0x00, 0x02])]\<rparr>" 1]
  by (simp add: exampleWrite_def examplePort_def)

section \<open>Receive loop: auxiliary facts\<close>

lemma waitForData_now:
  "predicate (readBuffer p) \<Longrightarrow> waitForData predicate p = (Inr (), p)"
  by (simp add: waitForData_def pollBuffer_now)

lemma sliceArr_prefix: "0 \<le> n \<Longrightarrow> sliceArr xs 0 n = take (nat n) xs"
  by (simp add: sliceArr_def clampIndex_def Let_def min_def)

lemma sliceArr_suffix: "0 \<le> n \<Longrightarrow> sliceArr xs n (int (length xs)) = drop (nat n) xs"
  by (simp add: sliceArr_def clampIndex_def Let_def min_def)

lemma read_take:
  assumes "isOpen p" "0 \<le> len" "nat len \<le> length (readBuffer p)"
  shows "read len p = (Inr (take (nat len) (readBuffer p)),
                       p\<lparr>readBuffer := drop (nat len) (readBuffer p)\<rparr>)"
proof -
  have "len \<le> int (length (readBuffer p))" using assms by simp
  from read_available[OF assms(1) this] show ?thesis
    by (simp add: sliceArr_prefix sliceArr_suffix assms(2))
qed

lemma noHeaderBefore_iff: "noHeaderBefore n buf \<longleftrightarrow> (\<forall>i<n. \<not> headerAt buf i)"
  by (auto simp: noHeaderBefore_def list_all_iff)

lemma awaitHeader_found:
  assumes "waitForData (\<lambda>buf. 2 \<le> length buf) p = (Inr (), p1)"
    "peekBuffer 2 p1 = h" "h ! 0 = 0xFF" "h ! 1 = 0xFF"
  shows "awaitHeader p = (Inr (), p1)"
  using assms by (subst awaitHeader.simps) simp

lemma awaitHeader_next:
  assumes "waitForData (\<lambda>buf. 2 \<le> length buf) p = (Inr (), p1)"
    "peekBuffer 2 p1 = h" "\<not> (h ! 0 = 0xFF \<and> h ! 1 = 0xFF)" "read 1 p1 = (Inr b, p2)"
  shows "awaitHeader p = awaitHeader p2"
  using assms by (subst awaitHeader.simps) auto

lemma awaitHeader_skip:
  assumes "isOpen p" "readBuffer p = garbage @ tail" "2 \<le> length tail"
    "tail ! 0 = 0xFF" "tail ! 1 = 0xFF" "noHeaderBefore (length garbage) (garbage @ tail)"
  shows "awaitHeader p = (Inr (), p\<lparr>readBuffer := tail\<rparr>)"
  using assms
proof (induction garbage arbitrary: p)
  case Nil
  have w: "waitForData (\<lambda>buf. 2 \<le> length buf) p = (Inr (), p)"
    by (rule waitForData_now) (use Nil in simp)
  have pk: "peekBuffer 2 p = take 2 tail"
    using Nil by (simp add: peekBuffer_def sliceArr_prefix min_def)
  have h: "take 2 tail ! 0 = 0xFF" "take 2 tail ! 1 = 0xFF" using Nil by simp_all
  have "p\<lparr>readBuffer := tail\<rparr> = p" using Nil by simp
  with awaitHeader_found[OF w pk h] show ?case by simp
next
  case (Cons x garbage)
  define buf where "buf = x # garbage @ tail"
  have rb: "readBuffer p = buf" using Cons.prems by (simp add: buf_def)
  have len: "2 \<le> length buf" using Cons.prems by (simp add: buf_def)
  have w: "waitForData (\<lambda>buf. 2 \<le> length buf) p = (Inr (), p)"
    by (rule waitForData_now) (use rb len in simp)
  have pk: "peekBuffer 2 p = take 2 buf"
    using len by (simp add: peekBuffer_def sliceArr_prefix min_def rb)
  have all: "\<forall>i<Suc (length garbage). \<not> headerAt buf i"
    using Cons.prems(6) by (simp add: noHeaderBefore_iff buf_def)
  then have nh0: "\<not> headerAt buf 0" by blast
  then have nh: "\<not> (take 2 buf ! 0 = 0xFF \<and> take 2 buf ! 1 = 0xFF)"
    using len by (simp add: headerAt_def)
  have "read 1 p = (Inr (take (nat 1) (readBuffer p)),
                        p\<lparr>readBuffer := drop (nat 1) (readBuffer p)\<rparr>)"
    by (rule read_take) (use Cons.prems(1) rb len in simp_all)
  moreover have "drop (nat 1) (readBuffer p) = garbage @ tail" by (simp add: rb buf_def)
  ultimately have rd: "read 1 p = (Inr (take (nat 1) (readBuffer p)),
                        p\<lparr>readBuffer := garbage @ tail\<rparr>)" by simp
  have nhb: "noHeaderBefore (length garbage) (garbage @ tail)"
  proof -
    have "\<not> headerAt (garbage @ tail) i" if "i < length garbage" for i
    proof -
      have "\<not> headerAt buf (Suc i)"
        using all that by simp
      then show ?thesis by (simp add: headerAt_def buf_def)
    qed
    then show ?thesis by (simp add: noHeaderBefore_iff)
  qed
  have ih: "awaitHeader (p\<lparr>readBuffer := garbage @ tail\<rparr>)
              = (Inr (), p\<lparr>readBuffer := garbage @ tail\<rparr>\<lparr>readBuffer := tail\<rparr>)"
    by (rule Cons.IH) (use Cons.prems nhb in simp_all)
  show ?case
    unfolding awaitHeader_next[OF w pk nh rd] ih by simp
qed

lemma fullPacket_assembled:
  assumes "length headerAndLen = 4" "int (length payload) = pktLen - 4"
  shows "(case setAt (newUint8Array pktLen) headerAndLen 0 of
            None \<Rightarrow> None | Some fullPacket \<Rightarrow> setAt fullPacket payload 4)
           = Some (headerAndLen @ payload)"
proof -
  have n: "nat pktLen = 4 + length payload" using assms by simp
  have "setAt (newUint8Array pktLen) headerAndLen 0 = Some (headerAndLen @ replicate (length payload) 0)"
    by (simp add: setAt_def newUint8Array_def n assms(1))
  moreover have "setAt (headerAndLen @ replicate (length payload) 0) payload 4
                   = Some (headerAndLen @ payload)"
    by (simp add: setAt_def assms(1))
  ultimately show ?thesis by simp
qed

lemma receiveResponse_frame:
  assumes "isOpen p" "readBuffer p = garbage @ frame @ rest"
    "noHeaderBefore (length garbage) (garbage @ frame)" "completeFrame frame"
  shows "receiveResponse expectedId p = (verdict expectedId frame, p\<lparr>readBuffer := rest\<rparr>)"
proof -
  obtain response where pr: "parsePacket frame = Inr response"
    and fl: "int (length frame) = 4 + pkt_length response"
    using assms(4) by (auto simp: completeFrame_def split: sum.splits)
  have l6: "6 \<le> length frame" and h0: "frame ! 0 = 0xFF" and h1: "frame ! 1 = 0xFF"
    and pl: "pkt_length response = uint (frame ! 3)"
    using pr by (auto simp: parsePacket_outcomes split: if_splits)
  have nh: "noHeaderBefore (length garbage) (garbage @ frame @ rest)"
  proof -
    have "headerAt (garbage @ frame @ rest) i = headerAt (garbage @ frame) i"
      if "i < length garbage" for i
    proof -
      have "i < length (garbage @ frame)" "i + 1 < length (garbage @ frame)"
        using that l6 by simp_all
      then have "((garbage @ frame) @ rest) ! i = (garbage @ frame) ! i"
        "((garbage @ frame) @ rest) ! (i + 1) = (garbage @ frame) ! (i + 1)"
        by (simp_all only: nth_append if_True)
      then show ?thesis by (simp add: headerAt_def)
    qed
    then show ?thesis using assms(3) by (simp add: noHeaderBefore_iff)
  qed
  have ah: "awaitHeader p = (Inr (), p\<lparr>readBuffer := frame @ rest\<rparr>)"
  proof (rule awaitHeader_skip[OF assms(1) assms(2)])
    show "2 \<le> length (frame @ rest)" using l6 by simp
    have "0 < length frame" "1 < length frame" using l6 by linarith+
    then have "(frame @ rest) ! 0 = frame ! 0" "(frame @ rest) ! 1 = frame ! 1"
      by (simp_all only: nth_append if_True)
    then show "(frame @ rest) ! 0 = 0xFF" "(frame @ rest) ! 1 = 0xFF"
      using h0 h1 by simp_all
    show "noHeaderBefore (length garbage) (garbage @ frame @ rest)" by (rule nh)
  qed
  have r4: "read 4 (p\<lparr>readBuffer := frame @ rest\<rparr>)
              = (Inr (take 4 frame), p\<lparr>readBuffer := drop 4 frame @ rest\<rparr>)"
    using read_take[of "p\<lparr>readBuffer := frame @ rest\<rparr>" 4] assms(1) l6 by simp
  define n where "n = unat (frame ! 3)"
  have ui: "uint (frame ! 3) = int n" by (simp add: n_def)
  have fn: "length frame = 4 + n" using fl pl ui by linarith
  have gl: "getPacketLength (take 4 frame) = Some (4 + int n)"
    using l6 by (simp add: getPacketLength_def HEADER_LENGTH_def ID_LENGTH_def LENGTH_LENGTH_def ui)
  have ld: "length (drop 4 frame) = n"
    using fn by simp
  have rp: "read (4 + int n - 4) (p\<lparr>readBuffer := drop 4 frame @ rest\<rparr>)
              = (Inr (drop 4 frame), p\<lparr>readBuffer := rest\<rparr>)"
    using read_take[of "p\<lparr>readBuffer := drop 4 frame @ rest\<rparr>" "int n"]
      assms(1) ld by simp
  have fp: "(case setAt (newUint8Array (4 + int n)) (take 4 frame) 0 of
            None \<Rightarrow> None | Some fullPacket \<Rightarrow> setAt fullPacket (drop 4 frame) 4)
           = Some (take 4 frame @ drop 4 frame)"
    by (rule fullPacket_assembled) (use l6 ld in simp_all)
  then obtain fp1 where s1: "setAt (newUint8Array (4 + int n)) (take 4 frame) 0 = Some fp1"
    and s2: "setAt fp1 (drop 4 frame) 4 = Some frame"
    by (auto split: option.splits)
  show ?thesis
    unfolding receiveResponse_def ah prod.case sum.case r4 gl option.case rp s1 s2 verdict_def
    by (simp split: sum.splits)
qed

lemma awaitHeader_arrival:
  "awaitHeader (p\<lparr>readBuffer := [], arrivals := Some chunk # later\<rparr>)
     = awaitHeader (p\<lparr>readBuffer := chunk, arrivals := later\<rparr>)"
proof -
  have "waitForData (\<lambda>buf. 2 \<le> length buf) (p\<lparr>readBuffer := [], arrivals := Some chunk # later\<rparr>)
          = waitForData (\<lambda>buf. 2 \<le> length buf) (p\<lparr>readBuffer := chunk, arrivals := later\<rparr>)"
    by (simp add: waitForData_def)
  then show ?thesis
    by (subst awaitHeader.simps, subst (2) awaitHeader.simps) (simp only:)
qed

lemma receiveResponse_arrival:
  "receiveResponse expectedId (p\<lparr>readBuffer := [], arrivals := Some chunk # later\<rparr>)
     = receiveResponse expectedId (p\<lparr>readBuffer := chunk, arrivals := later\<rparr>)"
  unfolding receiveResponse_def awaitHeader_arrival ..

lemma sendAndReceive_open:
  assumes "isOpen (ph_port ph)"
  shows "sendAndReceive packet expectedId ph =
     (case receiveResponse expectedId
             ((ph_port ph)\<lparr>readBuffer := [], written := written (ph_port ph) @ [packet]\<rparr>) of
        (r, p2) \<Rightarrow> (r, ph\<lparr>ph_port := p2\<rparr>))"
  using assms by (simp add: sendAndReceive_def writePort_def flush_def)

section \<open>Receive loop: properties\<close>

text \<open>
  C8. Let the inbound bytes be a prefix of garbage, then a complete valid frame, then
  anything, where no two consecutive \<open>FF FF\<close> start at a position before the frame's
  start (the garbage holds no header marker, and does not end in \<open>FF\<close>, which would form
  one with the frame's first byte). Then the receive loop drops the garbage and takes
  exactly the frame: the result is what parsing and checking that frame gives, and the
  bytes after the frame stay in the buffer. This holds for \<open>readResponse\<close>, which finds
  the bytes in the buffer, and for \<open>sendAndReceive\<close>, which flushes the buffer, sends
  its packet and then receives the bytes.
\<close>

theorem stream_resynchronization:
  assumes "noHeaderBefore (length garbage) (garbage @ frame)" "completeFrame frame"
  shows "(isOpen (gsr_port g) \<and> readBuffer (gsr_port g) = garbage @ frame @ rest \<longrightarrow>
            readResponse expectedId g =
              (verdict expectedId frame, g\<lparr>gsr_port := (gsr_port g)\<lparr>readBuffer := rest\<rparr>\<rparr>)) \<and>
         (isOpen (ph_port ph) \<and> arrivals (ph_port ph) = Some (garbage @ frame @ rest) # later \<longrightarrow>
            sendAndReceive packet expectedId ph =
              (verdict expectedId frame,
               ph\<lparr>ph_port := (ph_port ph)\<lparr>readBuffer := rest,
                     written := written (ph_port ph) @ [packet], arrivals := later\<rparr>\<rparr>))"
proof (intro conjI impI)
  assume a: "isOpen (gsr_port g) \<and> readBuffer (gsr_port g) = garbage @ frame @ rest"
  then have o: "isOpen (gsr_port g)" and b: "readBuffer (gsr_port g) = garbage @ frame @ rest"
    by simp_all
  have "receiveResponse expectedId (gsr_port g)
               = (verdict expectedId frame, (gsr_port g)\<lparr>readBuffer := rest\<rparr>)"
    by (rule receiveResponse_frame[OF o b assms])
  then show "readResponse expectedId g =
              (verdict expectedId frame, g\<lparr>gsr_port := (gsr_port g)\<lparr>readBuffer := rest\<rparr>\<rparr>)"
    by (simp add: readResponse_def)
next
  assume a: "isOpen (ph_port ph) \<and> arrivals (ph_port ph) = Some (garbage @ frame @ rest) # later"
  define p1 where "p1 = (ph_port ph)\<lparr>written := written (ph_port ph) @ [packet]\<rparr>"
  have eq: "(ph_port ph)\<lparr>readBuffer := [], written := written (ph_port ph) @ [packet]\<rparr>
              = p1\<lparr>readBuffer := [], arrivals := Some (garbage @ frame @ rest) # later\<rparr>"
    using a by (simp add: p1_def)
  have "receiveResponse expectedId (p1\<lparr>readBuffer := garbage @ frame @ rest, arrivals := later\<rparr>)
          = (verdict expectedId frame,
             p1\<lparr>readBuffer := garbage @ frame @ rest, arrivals := later\<rparr>\<lparr>readBuffer := rest\<rparr>)"
  proof (rule receiveResponse_frame[OF _ _ assms])
    show "isOpen (p1\<lparr>readBuffer := garbage @ frame @ rest, arrivals := later\<rparr>)"
      using a by (simp add: p1_def)
    show "readBuffer (p1\<lparr>readBuffer := garbage @ frame @ rest, arrivals := later\<rparr>)
            = garbage @ frame @ rest" by simp
  qed
  then show "sendAndReceive packet expectedId ph =
              (verdict expectedId frame,
               ph\<lparr>ph_port := (ph_port ph)\<lparr>readBuffer := rest,
                     written := written (ph_port ph) @ [packet], arrivals := later\<rparr>\<rparr>)"
    using a by (simp add: sendAndReceive_open eq receiveResponse_arrival p1_def)
qed

text \<open>Three bytes of garbage, a frame from device 1 with two data bytes, one more byte.\<close>

theorem stream_resynchronization_witness:
  "noHeaderBefore 3 [0x00, 0xFF, 0x12, 0xFF, 0xFF, 0x01, 0x04, 0x00, 0x00, 0x08, 0xF2] \<and>
   completeFrame [0xFF, 0xFF, 0x01, 0x04, 0x00, 0x00, 0x08, 0xF2] \<and>
   readResponse 1 exampleRead =
     (Inr \<lparr> pkt_id = 1, pkt_instruction = 0, pkt_parameters = [0x00, 0x08], pkt_length = 4,
            pkt_error = 0, pkt_checksum = 0xF2 \<rparr>,
      exampleRead\<lparr>gsr_port := examplePort\<lparr>readBuffer := [0xAA]\<rparr>\<rparr>) \<and>
   sendAndReceive [0xFF, 0xFF, 0x01, 0x04, 0x02, 0x38, 0x02, 0xBE] 1 exampleHandler =
     (Inr \<lparr> pkt_id = 1, pkt_instruction = 0, pkt_parameters = [0x00, 0x08], pkt_length = 4,
            pkt_error = 0, pkt_checksum = 0xF2 \<rparr>,
      exampleHandler\<lparr>ph_port := examplePort\<lparr>readBuffer := [0xAA],
          written := [[0xFF, 0xFF, 0x01, 0x04, 0x02, 0x38, 0x02, 0xBE]]\<rparr>\<rparr>)"
proof -
  have n3: "noHeaderBefore 3 [0x00, 0xFF, 0x12, 0xFF, 0xFF, 0x01, 0x04, 0x00, 0x00, 0x08, 0xF2]"
    by (simp add: noHeaderBefore_def headerAt_def upt_rec)
  have l3: "length [0x00, 0xFF, 0x12 :: byte] = 3" by simp
  have n: "noHeaderBefore (length [0x00, 0xFF, 0x12 :: byte])
             ([0x00, 0xFF, 0x12] @ [0xFF, 0xFF, 0x01, 0x04, 0x00, 0x00, 0x08, 0xF2])"
    by (simp only: l3 append_Cons append_Nil n3)
  have p: "parsePacket [0xFF, 0xFF, 0x01, 0x04, 0x00, 0x00, 0x08, 0xF2] =
     Inr \<lparr> pkt_id = 1, pkt_instruction = 0, pkt_parameters = [0x00, 0x08], pkt_length = 4,
            pkt_error = 0, pkt_checksum = 0xF2 \<rparr>"
    by code_simp
  have c: "completeFrame [0xFF, 0xFF, 0x01, 0x04, 0x00, 0x00, 0x08, 0xF2]"
    by (simp add: completeFrame_def p)
  have v: "verdict 1 [0xFF, 0xFF, 0x01, 0x04, 0x00, 0x00, 0x08, 0xF2] =
     Inr \<lparr> pkt_id = 1, pkt_instruction = 0, pkt_parameters = [0x00, 0x08], pkt_length = 4,
            pkt_error = 0, pkt_checksum = 0xF2 \<rparr>"
    by (simp add: verdict_def p checkError_def)
  from stream_resynchronization[OF n c, where g = exampleRead and rest = "[0xAA]"
      and expectedId = 1 and ph = exampleHandler and later = "[]"
      and packet = "[0xFF, 0xFF, 0x01, 0x04, 0x02, 0x38, 0x02, 0xBE]"]
  have "readResponse 1 exampleRead =
     (Inr \<lparr> pkt_id = 1, pkt_instruction = 0, pkt_parameters = [0x00, 0x08], pkt_length = 4,
            pkt_error = 0, pkt_checksum = 0xF2 \<rparr>,
      exampleRead\<lparr>gsr_port := examplePort\<lparr>readBuffer := [0xAA]\<rparr>\<rparr>)"
    and "sendAndReceive [0xFF, 0xFF, 0x01, 0x04, 0x02, 0x38, 0x02, 0xBE] 1 exampleHandler =
     (Inr \<lparr> pkt_id = 1, pkt_instruction = 0, pkt_parameters = [0x00, 0x08], pkt_length = 4,
            pkt_error = 0, pkt_checksum = 0xF2 \<rparr>,
      exampleHandler\<lparr>ph_port := examplePort\<lparr>readBuffer := [0xAA],
          written := [[0xFF, 0xFF, 0x01, 0x04, 0x02, 0x38, 0x02, 0xBE]]\<rparr>\<rparr>)"
    by (simp_all add: v exampleRead_def exampleHandler_def examplePort_def)
  with n3 c show ?thesis by simp
qed

text \<open>
  The condition cannot be dropped. One \<open>FF\<close> of garbage in front of the same frame forms
  a marker with the frame's first byte: the loop stops one byte early, the length is
  read from the id byte, and the five bytes taken are rejected as too short.
\<close>

lemma marker_before_frame_misleads:
  "readResponse 1
     (exampleRead\<lparr>gsr_port := examplePort\<lparr>readBuffer :=
         [0xFF, 0xFF, 0xFF, 0x01, 0x04, 0x00, 0x00, 0x08, 0xF2]\<rparr>\<rparr>) =
     (Inl (ServoError INVALID_RESPONSE [] None),
      exampleRead\<lparr>gsr_port := examplePort\<lparr>readBuffer := [0x00, 0x00, 0x08, 0xF2]\<rparr>\<rparr>)"
  by code_simp

section \<open>Transactions: auxiliary facts\<close>

lemma createWritePacket_eq:
  "createWritePacket ident address data = createPacket ident WRITE (word_of_int address # data)"
proof -
  have n: "nat (1 + int (length data)) = Suc (length data)" by simp
  have "setAt (store (newUint8Array (1 + int (length data))) 0 address) data 1
          = Some (word_of_int address # data)"
    by (simp add: newUint8Array_def n store_def setAt_def)
  then show ?thesis by (simp add: createWritePacket_def Let_def)
qed

lemma getControlTableEntry_known:
  "knownModel m \<Longrightarrow> getControlTableEntry m name = Inr (map_of SCS_SERIES_CONTROL_TABLE name)"
  by (auto simp: knownModel_def getControlTableEntry_def MODEL_CONTROL_TABLE_def)

lemma entry_Torque_Enable: "map_of SCS_SERIES_CONTROL_TABLE ''Torque_Enable'' = Some (entry 40 1)"
  by (simp add: SCS_SERIES_CONTROL_TABLE_def)

lemma entry_ID: "map_of SCS_SERIES_CONTROL_TABLE ''ID'' = Some (entry 5 1)"
  by (simp add: SCS_SERIES_CONTROL_TABLE_def)

lemma entry_Baud_Rate: "map_of SCS_SERIES_CONTROL_TABLE ''Baud_Rate'' = Some (entry 6 1)"
  by (simp add: SCS_SERIES_CONTROL_TABLE_def)

lemma awaitHeader_silent:
  assumes "readBuffer p = []" "arrivals p = []"
  shows "awaitHeader p = (Inl (ServoError TIMEOUT [] None), p)"
proof -
  have "waitForData (\<lambda>buf. 2 \<le> length buf) p = (Inl (ServoError TIMEOUT [] None), p)"
    using assms by (simp add: waitForData_def)
  then show ?thesis by (subst awaitHeader.simps) simp
qed

lemma sendAndReceive_silent:
  assumes "isOpen (ph_port ph)" "arrivals (ph_port ph) = []"
  shows "sendAndReceive packet expectedId ph = unanswered packet ph"
proof -
  have "awaitHeader ((ph_port ph)\<lparr>readBuffer := [], written := written (ph_port ph) @ [packet]\<rparr>)
          = (Inl (ServoError TIMEOUT [] None),
             (ph_port ph)\<lparr>readBuffer := [], written := written (ph_port ph) @ [packet]\<rparr>)"
    by (rule awaitHeader_silent) (use assms in simp_all)
  then show ?thesis
    by (simp add: sendAndReceive_open[OF assms(1)] receiveResponse_def unanswered_def)
qed

lemma readData_silent:
  assumes "isOpen (ph_port ph)" "arrivals (ph_port ph) = []"
  shows "readData ident address len ph = unanswered (createReadPacket ident address len) ph"
  by (simp add: readData_def sendAndReceive_silent[OF assms] unanswered_def)

lemma writeData_silent:
  assumes "isOpen (ph_port ph)" "arrivals (ph_port ph) = []"
  shows "writeData ident address data ph = unanswered (createWritePacket ident address data) ph"
  by (simp add: writeData_def sendAndReceive_silent[OF assms] unanswered_def)

lemma waitForData_written: "written (snd (waitForData predicate p)) = written p"
  by (simp add: waitForData_def split: prod.splits)

lemma read_written: "written (snd (read len p)) = written p"
  by (simp add: read_def split: prod.splits)

lemma awaitHeader_written: "written (snd (awaitHeader p)) = written p"
proof (induction p rule: awaitHeader.induct)
  case (1 p)
  obtain r p1 where w: "waitForData (\<lambda>buf. 2 \<le> length buf) p = (r, p1)"
    by (cases "waitForData (\<lambda>buf. 2 \<le> length buf) p")
  have p1: "written p1 = written p" using waitForData_written[of _ p] w by (metis snd_conv)
  show ?case
  proof (cases r)
    case (Inl e)
    then show ?thesis using w p1 by (subst awaitHeader.simps) simp
  next
    case (Inr u)
    show ?thesis
    proof (cases "peekBuffer 2 p1 ! 0 = 0xFF \<and> peekBuffer 2 p1 ! 1 = 0xFF")
      case True
      then show ?thesis using w p1 Inr by (subst awaitHeader.simps) simp
    next
      case False
      obtain r2 p2 where rd: "read 1 p1 = (r2, p2)" by (cases "read 1 p1")
      have p2: "written p2 = written p1" using read_written[of 1 p1] rd by simp
      show ?thesis
      proof (cases r2)
        case (Inl e)
        then show ?thesis using w p1 Inr False rd p2
          by (subst awaitHeader.simps) (simp add: Let_def)
      next
        case r2: (Inr b)
        have "written (snd (awaitHeader p2)) = written p2"
          by (rule 1[OF w[symmetric] Inr refl False rd[symmetric] r2])
        then show ?thesis using w p1 \<open>r = Inr u\<close> False rd p2 r2
          by (subst awaitHeader.simps) (simp add: Let_def)
      qed
    qed
  qed
qed

lemma receiveResponse_written: "written (snd (receiveResponse expectedId p)) = written p"
proof -
  have a: "written p1 = written p" if "awaitHeader p = (r, p1)" for r p1
    using awaitHeader_written[of p] that by simp
  have b: "written p2 = written p1" if "read n p1 = (r, p2)" for n r p1 p2
    using read_written[of n p1] that by simp
  show ?thesis
    unfolding receiveResponse_def
    by (auto split: prod.splits sum.splits option.splits dest!: a b)
qed

lemma sendAndReceive_written:
  assumes "isOpen (ph_port ph)"
  shows "written (ph_port (snd (sendAndReceive packet expectedId ph)))
           = written (ph_port ph) @ [packet]"
  using receiveResponse_written[of expectedId
      "(ph_port ph)\<lparr>readBuffer := [], written := written (ph_port ph) @ [packet]\<rparr>"]
  by (auto simp: sendAndReceive_open[OF assms] split: prod.splits)

lemma writeData_written:
  assumes "isOpen (ph_port ph)"
  shows "written (ph_port (snd (writeData ident address data ph)))
           = written (ph_port ph) @ [createWritePacket ident address data]"
  using sendAndReceive_written[OF assms, of "createWritePacket ident address data" ident]
  by (auto simp: writeData_def split: prod.splits sum.splits)

lemma getLowByte_mod: "getLowByte v = v mod 256"
  by (simp add: getLowByte_def and_255 take_bit_eq_mod)

lemma getHighByte_div: "getHighByte v = v div 256 mod 256"
  by (simp add: getHighByte_def and_255 take_bit_eq_mod drop_bit_eq_div)

lemma byte_of_mod: "(word_of_int (k mod 256) :: byte) = word_of_int k"
  by (simp add: word_uint_eq_iff uint_word_of_int_eq take_bit_eq_mod)

section \<open>Single-device operations: properties\<close>

text \<open>
  C4 (as amended). No single-device operation looks at the target id. Invoked with the
  broadcast id \<open>FE\<close> on an open port, each of them builds its request with \<open>FE\<close> in the
  id byte, hands it to the port and waits for a response as for any other id; when
  nothing arrives, the operation ends in \<open>TIMEOUT\<close> with exactly that one packet sent.
  (\<open>setID\<close> and \<open>setBaudRate\<close> reject an id outside 0..253 and an unsupported baud rate
  before that, whatever the target.)
\<close>

theorem broadcast_target_not_rejected:
  assumes "isOpen (ph_port ph)" "arrivals (ph_port ph) = []" "knownModel (ph_model ph)"
  shows
    "createPacket 0xFE instruction parameters ! 2 = 0xFE \<and>
     ping 0xFE ph = unanswered (createPingPacket 0xFE) ph \<and>
     readData 0xFE address len ph = unanswered (createReadPacket 0xFE address len) ph \<and>
     writeData 0xFE address data ph = unanswered (createWritePacket 0xFE address data) ph \<and>
     readByte 0xFE address ph = unanswered (createReadPacket 0xFE address 1) ph \<and>
     readWord 0xFE address ph = unanswered (createReadPacket 0xFE address 2) ph \<and>
     writeByte 0xFE address v ph
       = unanswered (createWritePacket 0xFE address [word_of_int (v AND 0xFF)]) ph \<and>
     writeWord 0xFE address v ph
       = unanswered (createWritePacket 0xFE address
                       [word_of_int (getLowByte v), word_of_int (getHighByte v)]) ph \<and>
     setTorque 0xFE enabled ph
       = unanswered (createWritePacket 0xFE 40 [if enabled then 1 else 0]) ph \<and>
     (0 \<le> newId \<and> newId \<le> 253 \<longrightarrow>
        setID 0xFE newId ph = unanswered (createWritePacket 0xFE 5 [word_of_int (newId AND 0xFF)]) ph) \<and>
     (getBaudRateValue baudRate = Inr regValue \<longrightarrow>
        setBaudRate 0xFE baudRate ph
          = unanswered (createWritePacket 0xFE 6 [word_of_int (regValue AND 0xFF)]) ph) \<and>
     factoryReset 0xFE ph = unanswered (createPacket 0xFE FACTORY_RESET []) ph \<and>
     reboot 0xFE ph = unanswered (createPacket 0xFE REBOOT []) ph"
proof -
  note sr = sendAndReceive_silent[OF assms(1,2)]
  note rd = readData_silent[OF assms(1,2)]
  note wd = writeData_silent[OF assms(1,2)]
  note ct = getControlTableEntry_known[OF assms(3)]
  have 1: "createPacket 0xFE instruction parameters ! 2 = 0xFE"
    by (simp add: createPacket_eq)
  have 2: "ping 0xFE ph = unanswered (createPingPacket 0xFE) ph"
    by (simp add: ping_def sr unanswered_def)
  have 3: "readByte 0xFE address ph = unanswered (createReadPacket 0xFE address 1) ph"
    by (simp add: readByte_def rd unanswered_def)
  have 4: "readWord 0xFE address ph = unanswered (createReadPacket 0xFE address 2) ph"
    by (simp add: readWord_def rd unanswered_def)
  have 5: "writeByte 0xFE address v ph
       = unanswered (createWritePacket 0xFE address [word_of_int (v AND 0xFF)]) ph" for address v
    by (simp add: writeByte_def wd)
  have 6: "writeWord 0xFE address v ph
       = unanswered (createWritePacket 0xFE address
                       [word_of_int (getLowByte v), word_of_int (getHighByte v)]) ph"
    by (simp add: writeWord_def wd)
  have 7: "setTorque 0xFE enabled ph
       = unanswered (createWritePacket 0xFE 40 [if enabled then 1 else 0]) ph"
    by (simp add: setTorque_def ct entry_Torque_Enable entry_def 5 TORQUE_ENABLE_def
          TORQUE_DISABLE_def)
  have 8: "setID 0xFE newId ph = unanswered (createWritePacket 0xFE 5 [word_of_int (newId AND 0xFF)]) ph"
    if "0 \<le> newId \<and> newId \<le> 253"
    using that by (simp add: setID_def ct entry_ID entry_def 5)
  have 9: "setBaudRate 0xFE baudRate ph
          = unanswered (createWritePacket 0xFE 6 [word_of_int (regValue AND 0xFF)]) ph"
    if "getBaudRateValue baudRate = Inr regValue"
    using that by (simp add: setBaudRate_def ct entry_Baud_Rate entry_def 5)
  have 10: "factoryReset 0xFE ph = unanswered (createPacket 0xFE FACTORY_RESET []) ph"
    by (simp add: factoryReset_def sr unanswered_def)
  have 11: "reboot 0xFE ph = unanswered (createPacket 0xFE REBOOT []) ph"
    by (simp add: reboot_def sr unanswered_def)
  show ?thesis
    using 1 2 rd wd 3 4 5 6 7 8 9 10 11 by blast
qed

text \<open>\<open>ping\<close>, \<open>setID\<close> and \<open>setBaudRate\<close> to target \<open>FE\<close> on a silent bus.\<close>

theorem broadcast_target_not_rejected_witness:
  "ping 0xFE silentHandler =
     (Inl (ServoError TIMEOUT [] None),
      silentHandler\<lparr>ph_port := examplePort\<lparr>readBuffer := [],
          written := [[0xFF, 0xFF, 0xFE, 0x02, 0x01, 0xFE]]\<rparr>\<rparr>) \<and>
   setID 0xFE 7 silentHandler =
     (Inl (ServoError TIMEOUT [] None),
      silentHandler\<lparr>ph_port := examplePort\<lparr>readBuffer := [],
          written := [[0xFF, 0xFF, 0xFE, 0x04, 0x03, 0x05, 0x07, 0xEE]]\<rparr>\<rparr>) \<and>
   setBaudRate 0xFE 115200 silentHandler =
     (Inl (ServoError TIMEOUT [] None),
      silentHandler\<lparr>ph_port := examplePort\<lparr>readBuffer := [],
          written := [[0xFF, 0xFF, 0xFE, 0x04, 0x03, 0x06, 0x04, 0xF0]]\<rparr>\<rparr>)"
proof -
  have o: "isOpen (ph_port silentHandler)" and a: "arrivals (ph_port silentHandler) = []"
    and k: "knownModel (ph_model silentHandler)"
    by (simp_all add: silentHandler_def examplePort_def knownModel_def MODEL_CONTROL_TABLE_def)
  have b: "getBaudRateValue 115200 = Inr 4"
    by (simp add: getBaudRateValue_def SCS_SERIES_BAUD_TABLE_def)
  from broadcast_target_not_rejected[OF o a k, where newId = 7 and baudRate = 115200
      and regValue = 4 and instruction = 1 and parameters = "[]" and address = 0 and len = 0
      and data = "[]" and v = 0 and enabled = True] b
  show ?thesis
    by (simp add: unanswered_def createPingPacket_def createWritePacket_eq createPacket_eq
        PING_def WRITE_def silentHandler_def examplePort_def)
qed

text \<open>
  A ping to \<open>FE\<close> is sent, and it succeeds when a status frame with id \<open>FE\<close> comes
  back; the read of the model number that follows is sent to \<open>FE\<close> as well.
\<close>

theorem broadcast_ping_performed:
  "ping 0xFE echoHandler =
     (Inr \<lparr> pr_id = 0xFE, pr_modelNumber = 0, pr_firmwareVersion = 0 \<rparr>,
      echoHandler\<lparr>ph_port := examplePort\<lparr>readBuffer := [],
          written := [[0xFF, 0xFF, 0xFE, 0x02, 0x01, 0xFE],
                      [0xFF, 0xFF, 0xFE, 0x04, 0x02, 0x03, 0x02, 0xF6]]\<rparr>\<rparr>)"
  by code_simp

text \<open>
  C10. Words are serialized low byte first: \<open>makeWord (getLowByte v) (getHighByte v) = v\<close>
  for \<open>0 \<le> v \<le> 65535\<close>; \<open>writeWord\<close> sends a WRITE packet whose parameters are the
  address, then \<open>v mod 256\<close>, then \<open>v div 256\<close> (as a byte); and when a read returns
  the two bytes that \<open>writeWord\<close> serialized, \<open>readWord\<close> gives \<open>v mod 65536\<close>.
\<close>

theorem word_codec_little_endian:
  "(0 \<le> v \<and> v \<le> 65535 \<longrightarrow> makeWord (getLowByte v) (getHighByte v) = v) \<and>
   (isOpen (ph_port ph) \<longrightarrow>
      written (ph_port (snd (writeWord ident address v ph))) =
        written (ph_port ph) @
          [createPacket ident WRITE
             [word_of_int address, word_of_int (v mod 256), word_of_int (v div 256)]]) \<and>
   (readData ident address 2 ph =
        (Inr [word_of_int (getLowByte v), word_of_int (getHighByte v)], ph') \<longrightarrow>
      readWord ident address ph = (Inr (v mod 65536), ph'))"
proof (intro conjI impI)
  assume "0 \<le> v \<and> v \<le> 65535"
  then show "makeWord (getLowByte v) (getHighByte v) = v" by (simp add: makeWord_bytes)
next
  assume o: "isOpen (ph_port ph)"
  have "(word_of_int (v div 256 mod 256) :: byte) = word_of_int (v div 256)"
    by (rule byte_of_mod)
  then show "written (ph_port (snd (writeWord ident address v ph))) =
        written (ph_port ph) @
          [createPacket ident WRITE
             [word_of_int address, word_of_int (v mod 256), word_of_int (v div 256)]]"
    by (simp add: writeWord_def writeData_written[OF o] createWritePacket_eq getLowByte_mod
        getHighByte_div)
next
  assume "readData ident address 2 ph =
        (Inr [word_of_int (getLowByte v), word_of_int (getHighByte v)], ph')"
  then show "readWord ident address ph = (Inr (v mod 65536), ph')"
    by (simp add: readWord_def byte_of_low byte_of_high makeWord_bytes)
qed

text \<open>The word \<open>0x1234\<close>: written as \<open>34 12\<close>, and read back from \<open>34 12\<close>.\<close>

theorem word_codec_little_endian_witness:
  "makeWord (getLowByte 0x1234) (getHighByte 0x1234) = 0x1234 \<and>
   written (ph_port (snd (writeWord 1 42 0x1234 silentHandler))) =
     [[0xFF, 0xFF, 0x01, 0x05, 0x03, 0x2A, 0x34, 0x12, 0x86]] \<and>
   readWord 1 56 wordHandler =
     (Inr 0x1234,
      wordHandler\<lparr>ph_port := examplePort\<lparr>readBuffer := [],
          written := [[0xFF, 0xFF, 0x01, 0x04, 0x02, 0x38, 0x02, 0xBE]]\<rparr>\<rparr>)"
proof -
  have rd: "readData 1 56 2 wordHandler =
     (Inr [0x34, 0x12],
      wordHandler\<lparr>ph_port := examplePort\<lparr>readBuffer := [],
          written := [[0xFF, 0xFF, 0x01, 0x04, 0x02, 0x38, 0x02, 0xBE]]\<rparr>\<rparr>)"
    by code_simp
  have bs: "[word_of_int (getLowByte 0x1234), word_of_int (getHighByte 0x1234)] = [0x34, 0x12 :: byte]"
    by (simp add: getLowByte_def getHighByte_def drop_bit_eq_div)
  have o: "isOpen (ph_port silentHandler)"
    by (simp add: silentHandler_def examplePort_def)
  from word_codec_little_endian[where v = "0x1234" and ph = silentHandler and ident = 1
      and address = 42 and ph' = silentHandler]
    word_codec_little_endian[where v = "0x1234" and ph = wordHandler and ident = 1
      and address = 56
      and ph' = "wordHandler\<lparr>ph_port := examplePort\<lparr>readBuffer := [],
          written := [[0xFF, 0xFF, 0x01, 0x04, 0x02, 0x38, 0x02, 0xBE]]\<rparr>\<rparr>"]
    rd o
  show ?thesis
    by (simp add: bs createPacket_eq WRITE_def silentHandler_def examplePort_def)
qed

section \<open>Group read: properties\<close>

text \<open>
  C5, at the input where the code departs from it. Ids 1, 2, 3 are added in this order;
  the map still holds a result of an earlier run. After the sync read packet has been
  sent, the replies of devices 1 and 3 arrive one after the other and device 2 stays
  silent. The earlier result is discarded and the reply of device 1 is stored; the
  transaction for id 2 then takes the reply of device 3 out of the buffer and fails on
  the id mismatch, and the transaction for id 3 finds nothing and times out. The result
  map holds id 1 only.
\<close>

theorem group_read_drops_reply_after_silent_id:
  "(let (r, g) = txRxPacket (gsr_addParam 3 (gsr_addParam 2 (gsr_addParam 1 silentSecond)))
    in r = Inr () \<and> gsr_dataMap g = [(1, [0x00, 0x08])] \<and>
       written (gsr_port g) = [[0xFF, 0xFF, 0xFE, 0x07, 0x82, 0x38, 0x02, 0x01, 0x02, 0x03, 0x38]] \<and>
       getData 1 g = Some [0x00, 0x08] \<and> getData 2 g = None \<and> getData 3 g = None)"
  by code_simp

text \<open>In particular no data is available for id 3.\<close>

theorem group_read_drops_reply_after_silent_id_witness:
  "\<not> isAvailable 3 (snd (txRxPacket (gsr_addParam 3 (gsr_addParam 2 (gsr_addParam 1 silentSecond)))))"
  using group_read_drops_reply_after_silent_id
  by (auto simp: isAvailable_def getData_def mapGet_def split: prod.splits)

text \<open>
  When the reply of device 3 arrives only after the wait for id 2 has run into its
  deadline, the results of ids 1 and 3 are both kept.
\<close>

lemma group_read_keeps_reply_after_timeout:
  "(let (r, g) = txRxPacket (gsr_addParam 3 (gsr_addParam 2 (gsr_addParam 1
        (silentSecond\<lparr>gsr_port := examplePort\<lparr>arrivals :=
                  [Some [0xFF, 0xFF, 0x01, 0x04, 0x00, 0x00, 0x08, 0xF2], None,
                   Some [0xFF, 0xFF, 0x03, 0x04, 0x00, 0x10, 0x04, 0xE4]]\<rparr>\<rparr>))))
    in r = Inr () \<and> gsr_dataMap g = [(1, [0x00, 0x08]), (3, [0x10, 0x04])])"
  by code_simp

end
